theory Spec2Isabelle
  imports Main "HOL-Library.Word" "HOL-Library.Char_ord" "HOL-Library.List_Lexorder"
begin

section \<open>Query parsing of the HTTP surface (pkg/api/resources.go)\<close>

text \<open>
  Go's \<open>url.Values\<close> is a \<open>map[string][]string\<close>. A \<open>range\<close> loop over a map visits
  the entries in an order the runtime picks, so the model takes the entries as an
  association list in the order of one traversal; the keys of a map are distinct.
  Strings are byte sequences, as Go's are.
\<close>

type_synonym Values = "(string \<times> string list) list"

text \<open>A failed run-time check of Go (here: an index out of range) is a value.\<close>

datatype panic = IndexOutOfRange

text \<open>\<open>value[0]\<close>: panics on an empty slice.\<close>

definition index0 :: "string list \<Rightarrow> panic + string" where
  "index0 vs = (case vs of [] \<Rightarrow> Inl IndexOutOfRange | x # _ \<Rightarrow> Inr x)"

subsection \<open>strconv.Atoi\<close>

text \<open>
  The standard library's \<open>strconv.Atoi\<close> is \<open>ParseInt(s, 10, 0)\<close> with the result
  converted to \<open>int\<close> (64 bits on the platforms the server targets; the fast path of
  later Go releases for short strings computes the same values). \<open>ParseInt\<close> takes the
  sign off and calls \<open>ParseUint\<close>, whose loop stops at the first byte that is not a
  digit with the value 0 and a syntax error, and stops as soon as the accumulated value
  leaves the 64-bit range with the largest value and a range error, without looking at
  the bytes that follow. The unsigned 64-bit accumulator is an integer here, and the
  loop's two overflow checks are written on the unbounded values.
\<close>

datatype NumError = ErrSyntax | ErrRange

definition is_digit :: "char \<Rightarrow> bool" where
  "is_digit c = (48 \<le> (of_char c :: nat) \<and> (of_char c :: nat) \<le> 57)"

definition digit_val :: "char \<Rightarrow> int" where
  "digit_val c = (of_char c :: int) - 48"

definition maxUint64 :: int where
  "maxUint64 = 18446744073709551615"

definition maxInt64 :: int where
  "maxInt64 = 9223372036854775807"

definition minInt64 :: int where
  "minInt64 = - 9223372036854775808"

fun ParseUint_loop :: "string \<Rightarrow> int \<Rightarrow> int \<times> NumError option" where
  "ParseUint_loop [] n = (n, None)"
| "ParseUint_loop (c # cs) n =
     (if \<not> is_digit c then (0, Some ErrSyntax)
      else if n \<ge> maxUint64 div 10 + 1 then (maxUint64, Some ErrRange)
      else if n * 10 + digit_val c > maxUint64 then (maxUint64, Some ErrRange)
      else ParseUint_loop cs (n * 10 + digit_val c))"

definition ParseUint :: "string \<Rightarrow> int \<times> NumError option" where
  "ParseUint s = (if s = [] then (0, Some ErrSyntax) else ParseUint_loop s 0)"

definition ParseInt :: "string \<Rightarrow> int \<times> NumError option" where
  "ParseInt s =
     (case s of
        [] \<Rightarrow> (0, Some ErrSyntax)
      | c # cs \<Rightarrow>
          (let neg = (c = CHR ''-'');
               s1 = (if c = CHR ''+'' \<or> c = CHR ''-'' then cs else s);
               (un, err) = ParseUint s1
           in if err = Some ErrSyntax then (0, err)
              else if \<not> neg \<and> un \<ge> 2 ^ 63 then (maxInt64, Some ErrRange)
              else if neg \<and> un > 2 ^ 63 then (minInt64, Some ErrRange)
              else (if neg then - un else un, None)))"

definition Atoi :: "string \<Rightarrow> int \<times> NumError option" where
  "Atoi s = ParseInt s"

text \<open>
  A well-formed decimal integer, in the words of the specification: an optional sign
  followed by at least one decimal digit.
\<close>

definition well_formed_integer :: "string \<Rightarrow> bool" where
  "well_formed_integer s =
     (case s of
        [] \<Rightarrow> False
      | c # cs \<Rightarrow>
          (let ds = (if c = CHR ''+'' \<or> c = CHR ''-'' then cs else s)
           in ds \<noteq> [] \<and> list_all is_digit ds))"

text \<open>
  What decides the number kept for a value that is not well formed: the value without
  its sign, the number its leading digits write, and whether that number is already
  beyond the unsigned 64-bit range (then \<open>ParseUint\<close> reports the range error before it
  reaches the byte that is not a digit).
\<close>

definition has_minus :: "string \<Rightarrow> bool" where
  "has_minus s = (case s of [] \<Rightarrow> False | c # cs \<Rightarrow> c = CHR ''-'')"

definition unsigned_part :: "string \<Rightarrow> string" where
  "unsigned_part s =
     (case s of [] \<Rightarrow> [] | c # cs \<Rightarrow> if c = CHR ''+'' \<or> c = CHR ''-'' then cs else s)"

definition decimal_value :: "int \<Rightarrow> string \<Rightarrow> int" where
  "decimal_value n ds = foldl (\<lambda>v c. v * 10 + digit_val c) n ds"

definition leading_digits_overflow :: "string \<Rightarrow> bool" where
  "leading_digits_overflow s =
     (decimal_value 0 (takeWhile is_digit (unsigned_part s)) > maxUint64)"

subsection \<open>The resource records\<close>

text \<open>
  \<open>drivers.BucketResourcesMetadata\<close> and \<open>drivers.ObjectResourcesMetadata\<close>, with the
  fields the source reads and writes. A Go struct starts with every field at its zero
  value.
\<close>

record BucketResourcesMetadata =
  Prefix :: string
  Marker :: string
  NextMarker :: string
  Maxkeys :: int
  EncodingType :: string
  Delimiter :: string
  IsTruncated :: bool
  CommonPrefixes :: "string list"

definition zero_BucketResourcesMetadata :: BucketResourcesMetadata where
  "zero_BucketResourcesMetadata =
     \<lparr>Prefix = [], Marker = [], NextMarker = [], Maxkeys = 0, EncodingType = [],
      Delimiter = [], IsTruncated = False, CommonPrefixes = []\<rparr>"

record ObjectResourcesMetadata =
  UploadID :: string
  PartNumberMarker :: int
  MaxParts :: int
  ObjEncodingType :: string

definition zero_ObjectResourcesMetadata :: ObjectResourcesMetadata where
  "zero_ObjectResourcesMetadata =
     \<lparr>UploadID = [], PartNumberMarker = 0, MaxParts = 0, ObjEncodingType = []\<rparr>"

subsection \<open>getBucketResources, getObjectResources, isRequestBucketACL\<close>

text \<open>One iteration of the loop of \<open>getBucketResources\<close>: the \<open>switch\<close> on the key.\<close>

definition getBucketResources_case ::
  "string \<Rightarrow> string list \<Rightarrow> BucketResourcesMetadata \<Rightarrow> panic + BucketResourcesMetadata" where
  "getBucketResources_case key val v =
     (if key = ''prefix'' then
        (case index0 val of Inl p \<Rightarrow> Inl p | Inr x \<Rightarrow> Inr (v\<lparr>Prefix := x\<rparr>))
      else if key = ''marker'' then
        (case index0 val of Inl p \<Rightarrow> Inl p | Inr x \<Rightarrow> Inr (v\<lparr>Marker := x\<rparr>))
      else if key = ''max-keys'' then
        (case index0 val of Inl p \<Rightarrow> Inl p | Inr x \<Rightarrow> Inr (v\<lparr>Maxkeys := fst (Atoi x)\<rparr>))
      else if key = ''delimiter'' then
        (case index0 val of Inl p \<Rightarrow> Inl p | Inr x \<Rightarrow> Inr (v\<lparr>Delimiter := x\<rparr>))
      else if key = ''encoding-type'' then
        (case index0 val of Inl p \<Rightarrow> Inl p | Inr x \<Rightarrow> Inr (v\<lparr>EncodingType := x\<rparr>))
      else Inr v)"

fun getBucketResources_loop ::
  "Values \<Rightarrow> BucketResourcesMetadata \<Rightarrow> panic + BucketResourcesMetadata" where
  "getBucketResources_loop [] v = Inr v"
| "getBucketResources_loop ((key, val) # rest) v =
     (case getBucketResources_case key val v of
        Inl p \<Rightarrow> Inl p
      | Inr v' \<Rightarrow> getBucketResources_loop rest v')"

definition getBucketResources :: "Values \<Rightarrow> panic + BucketResourcesMetadata" where
  "getBucketResources values = getBucketResources_loop values zero_BucketResourcesMetadata"

definition getObjectResources_case ::
  "string \<Rightarrow> string list \<Rightarrow> ObjectResourcesMetadata \<Rightarrow> panic + ObjectResourcesMetadata" where
  "getObjectResources_case key val v =
     (if key = ''uploadId'' then
        (case index0 val of Inl p \<Rightarrow> Inl p | Inr x \<Rightarrow> Inr (v\<lparr>UploadID := x\<rparr>))
      else if key = ''part-number-marker'' then
        (case index0 val of Inl p \<Rightarrow> Inl p
         | Inr x \<Rightarrow> Inr (v\<lparr>PartNumberMarker := fst (Atoi x)\<rparr>))
      else if key = ''max-parts'' then
        (case index0 val of Inl p \<Rightarrow> Inl p | Inr x \<Rightarrow> Inr (v\<lparr>MaxParts := fst (Atoi x)\<rparr>))
      else if key = ''encoding-type'' then
        (case index0 val of Inl p \<Rightarrow> Inl p | Inr x \<Rightarrow> Inr (v\<lparr>ObjEncodingType := x\<rparr>))
      else Inr v)"

fun getObjectResources_loop ::
  "Values \<Rightarrow> ObjectResourcesMetadata \<Rightarrow> panic + ObjectResourcesMetadata" where
  "getObjectResources_loop [] v = Inr v"
| "getObjectResources_loop ((key, val) # rest) v =
     (case getObjectResources_case key val v of
        Inl p \<Rightarrow> Inl p
      | Inr v' \<Rightarrow> getObjectResources_loop rest v')"

definition getObjectResources :: "Values \<Rightarrow> panic + ObjectResourcesMetadata" where
  "getObjectResources values = getObjectResources_loop values zero_ObjectResourcesMetadata"

text \<open>
  \<open>isRequestBucketACL\<close>: both branches of the \<open>switch\<close> return, so the loop body runs
  for the first entry of the traversal only; an empty map falls through to
  \<open>return false\<close>.
\<close>

fun isRequestBucketACL :: "Values \<Rightarrow> bool" where
  "isRequestBucketACL [] = False"
| "isRequestBucketACL ((key, val) # rest) = (if key = ''acl'' then True else False)"

text \<open>The keys of a \<open>url.Values\<close>.\<close>

definition keys_of :: "Values \<Rightarrow> string set" where
  "keys_of values = fst ` set values"

section \<open>Library functions the storage driver calls\<close>

type_synonym byte = "8 word"
type_synonym int64 = "64 word"

subsection \<open>strings.TrimSpace, strings.Contains\<close>

text \<open>
  \<open>strings.TrimSpace\<close> removes the leading and the trailing white space, as Unicode
  defines it, from a UTF-8 string. On bytes: the six ASCII spaces, and the UTF-8 forms
  of U+0085, U+00A0, U+1680, U+2000 to U+200A, U+2028, U+2029, U+202F, U+205F and
  U+3000. None of these forms is a prefix or a suffix of another, and a byte that
  does not start or end one of them (an invalid byte included) stops the trimming.
\<close>

definition space_runes :: "string list" where
  "space_runes =
     [[CHR 0x09], [CHR 0x0A], [CHR 0x0B], [CHR 0x0C], [CHR 0x0D], [CHR 0x20],
      [CHR 0xC2, CHR 0x85], [CHR 0xC2, CHR 0xA0],
      [CHR 0xE1, CHR 0x9A, CHR 0x80],
      [CHR 0xE2, CHR 0x80, CHR 0x80], [CHR 0xE2, CHR 0x80, CHR 0x81],
      [CHR 0xE2, CHR 0x80, CHR 0x82], [CHR 0xE2, CHR 0x80, CHR 0x83],
      [CHR 0xE2, CHR 0x80, CHR 0x84], [CHR 0xE2, CHR 0x80, CHR 0x85],
      [CHR 0xE2, CHR 0x80, CHR 0x86], [CHR 0xE2, CHR 0x80, CHR 0x87],
      [CHR 0xE2, CHR 0x80, CHR 0x88], [CHR 0xE2, CHR 0x80, CHR 0x89],
      [CHR 0xE2, CHR 0x80, CHR 0x8A],
      [CHR 0xE2, CHR 0x80, CHR 0xA8], [CHR 0xE2, CHR 0x80, CHR 0xA9],
      [CHR 0xE2, CHR 0x80, CHR 0xAF], [CHR 0xE2, CHR 0x81, CHR 0x9F],
      [CHR 0xE3, CHR 0x80, CHR 0x80]]"

definition leading :: "string list \<Rightarrow> string \<Rightarrow> string option" where
  "leading tbl s = find (\<lambda>p. p \<noteq> [] \<and> take (length p) s = p) tbl"

function trim_leading :: "string list \<Rightarrow> string \<Rightarrow> string" where
  "trim_leading tbl s =
     (case leading tbl s of
        None \<Rightarrow> s
      | Some p \<Rightarrow> trim_leading tbl (drop (length p) s))"
  by pat_completeness auto
termination
proof (relation "measure (\<lambda>(tbl, s). length s)")
  show "wf (measure (\<lambda>(tbl, s). length s))" by simp
next
  fix tbl :: "string list" and s p :: string
  assume "leading tbl s = Some p"
  then have p: "p \<noteq> []" "take (length p) s = p"
    by (auto simp: leading_def find_Some_iff)
  have "s \<noteq> []" using p by auto
  then show "((tbl, drop (length p) s), (tbl, s)) \<in> measure (\<lambda>(tbl, s). length s)"
    using p by simp
qed

declare trim_leading.simps [simp del]

definition TrimLeft :: "string \<Rightarrow> string" where
  "TrimLeft s = trim_leading space_runes s"

definition TrimRight :: "string \<Rightarrow> string" where
  "TrimRight s = rev (trim_leading (map rev space_runes) (rev s))"

definition TrimSpace :: "string \<Rightarrow> string" where
  "TrimSpace s = TrimRight (TrimLeft s)"

text \<open>\<open>strings.Contains(s, ".")\<close>.\<close>

definition Contains_dot :: "string \<Rightarrow> bool" where
  "Contains_dot s = (CHR ''.'' \<in> set s)"

subsection \<open>strconv.FormatInt in base 10\<close>

definition digits :: string where
  "digits = ''0123456789''"

function decimal :: "int \<Rightarrow> string" where
  "decimal n =
     (if n < 10 then [digits ! nat n]
      else decimal (n div 10) @ [digits ! nat (n mod 10)])"
  by pat_completeness auto
termination
  by (relation "measure nat") auto

declare decimal.simps [simp del]

definition FormatInt :: "int64 \<Rightarrow> string" where
  "FormatInt i = (if sint i < 0 then CHR ''-'' # decimal (- sint i) else decimal (sint i))"

subsection \<open>encoding/base64 (StdEncoding.DecodeString) and encoding/hex\<close>

text \<open>
  The standard alphabet with \<open>=\<close> padding. The decoder skips carriage returns and line
  feeds wherever they stand, reads groups of four characters, lets padding end the
  last group only, and refuses everything else with a \<open>CorruptInputError\<close> (whose
  byte offset the model leaves out).
\<close>

definition b64_value :: "char \<Rightarrow> nat option" where
  "b64_value c =
     (let n = (of_char c :: nat) in
      if 65 \<le> n \<and> n \<le> 90 then Some (n - 65)
      else if 97 \<le> n \<and> n \<le> 122 then Some (n - 71)
      else if 48 \<le> n \<and> n \<le> 57 then Some (n + 4)
      else if c = CHR ''+'' then Some 62
      else if c = CHR ''/'' then Some 63
      else None)"

fun decode_quanta :: "string \<Rightarrow> byte list option" where
  "decode_quanta [] = Some []"
| "decode_quanta (a # b # c # d # rest) =
     (case (b64_value a, b64_value b) of
        (Some x, Some y) \<Rightarrow>
          (case (b64_value c, b64_value d) of
             (Some z, Some u) \<Rightarrow>
               (case decode_quanta rest of
                  None \<Rightarrow> None
                | Some bs \<Rightarrow>
                    Some (of_nat (x * 4 + y div 16) # of_nat (y * 16 + z div 4)
                            # of_nat (z * 64 + u) # bs))
           | (Some z, None) \<Rightarrow>
               (if d = CHR ''='' \<and> rest = []
                then Some [of_nat (x * 4 + y div 16), of_nat (y * 16 + z div 4)]
                else None)
           | (None, _) \<Rightarrow>
               (if c = CHR ''='' \<and> d = CHR ''='' \<and> rest = []
                then Some [of_nat (x * 4 + y div 16)]
                else None))
      | _ \<Rightarrow> None)"
| "decode_quanta _ = None"

definition DecodeString :: "string \<Rightarrow> byte list option" where
  "DecodeString s = decode_quanta (filter (\<lambda>c. c \<noteq> CHR 0x0A \<and> c \<noteq> CHR 0x0D) s)"

definition hextable :: string where
  "hextable = ''0123456789abcdef''"

definition EncodeToString :: "byte list \<Rightarrow> string" where
  "EncodeToString bs = concat (map (\<lambda>b. [hextable ! (unat b div 16), hextable ! (unat b mod 16)]) bs)"

subsection \<open>io.CopyN\<close>

text \<open>
  A reader is the sequence of bytes it yields before the end of the stream; the sink
  accepts every byte. \<open>io.CopyN(dst, src, n)\<close> copies \<open>n\<close> bytes, or fails with
  \<open>io.EOF\<close> after copying what there was; with \<open>n \<le> 0\<close> the limited reader is at its
  end at once and nothing is copied. The result: the bytes written, what is left of
  the reader, the count returned and whether the copy ran into the end.
\<close>

definition CopyN :: "byte list \<Rightarrow> int64 \<Rightarrow> byte list \<times> byte list \<times> int64 \<times> bool" where
  "CopyN src n =
     (if sint n \<le> 0 then ([], src, 0, False)
      else if sint n \<le> int (length src)
      then (take (nat (sint n)) src, drop (nat (sint n)) src, n, False)
      else (src, [], of_nat (length src), True))"

section \<open>The donut storage driver\<close>

subsection \<open>The layers the driver stands on\<close>

type_synonym Time = int

text \<open>\<open>donut.BucketMetadata\<close> and \<open>donut.ObjectMetadata\<close>: the fields the driver reads.\<close>

record donut_BucketMetadata =
  donut_Created :: Time
  donut_ACL :: string

record donut_ObjectMetadata =
  donut_ObjCreated :: Time
  donut_MD5Sum :: string
  donut_Size :: int64
  donut_Metadata :: "string \<rightharpoonup> string"

text \<open>
  The errors of the donut layer. The driver tells \<open>donut.BucketExists\<close> apart from the
  others; \<open>BadDigest\<close> is the failed digest comparison of the write pipeline.
\<close>

datatype donut_error = donut_BucketExists | donut_BadDigest | donut_failure string

text \<open>
  The interface \<open>donut.Donut\<close>, whose implementation is not part of the driver: a
  record of operations over a store \<open>'s\<close>. \<open>ListBuckets\<close> returns a Go map, taken as
  its entries in the order the driver's loop visits them. \<open>GetObject\<close> returns the
  reader and the size it reports.
\<close>

record 's Donut =
  donut_ListBuckets :: "'s \<Rightarrow> donut_error + (string \<times> donut_BucketMetadata) list"
  donut_MakeBucket :: "string \<Rightarrow> string \<Rightarrow> 's \<Rightarrow> donut_error option \<times> 's"
  donut_GetBucketMetadata :: "string \<Rightarrow> 's \<Rightarrow> donut_error + donut_BucketMetadata"
  donut_SetBucketMetadata ::
    "string \<Rightarrow> (string \<rightharpoonup> string) \<Rightarrow> 's \<Rightarrow> donut_error option \<times> 's"
  donut_GetObject :: "string \<Rightarrow> string \<Rightarrow> 's \<Rightarrow> donut_error + (byte list \<times> int64)"
  donut_GetObjectMetadata :: "string \<Rightarrow> string \<Rightarrow> 's \<Rightarrow> donut_error + donut_ObjectMetadata"
  donut_ListObjects ::
    "string \<Rightarrow> string \<Rightarrow> string \<Rightarrow> string \<Rightarrow> int \<Rightarrow> 's
       \<Rightarrow> donut_error + (string list \<times> string list \<times> bool)"
  donut_PutObject ::
    "string \<Rightarrow> string \<Rightarrow> string \<Rightarrow> byte list \<Rightarrow> (string \<rightharpoonup> string) \<Rightarrow> 's
       \<Rightarrow> (donut_error + string) \<times> 's"

text \<open>
  The name checks of package \<open>drivers\<close>, which the driver calls and does not define:
  parameters of the model.
\<close>

record drivers =
  IsValidBucket :: "string \<Rightarrow> bool"
  IsValidObjectName :: "string \<Rightarrow> bool"
  IsValidBucketACL :: "string \<Rightarrow> bool"

text \<open>
  The store together with the record of the calls made to the donut layer, in order:
  every call the driver makes to \<open>d.donut\<close> is entered.
\<close>

datatype access =
    ListBuckets_call
  | MakeBucket_call string string
  | GetBucketMetadata_call string
  | SetBucketMetadata_call string
  | GetObject_call string string
  | GetObjectMetadata_call string string
  | ListObjects_call string
  | PutObject_call string string string

record 's world =
  store :: 's
  accesses :: "access list"

definition touch :: "access \<Rightarrow> 's world \<Rightarrow> 's world" where
  "touch a w = w\<lparr>accesses := accesses w @ [a]\<rparr>"

subsection \<open>The driver's types\<close>

text \<open>
  \<open>donutDriver\<close>: the donut, which is \<open>nil\<close> when \<open>donut.NewDonut\<close> failed at start.
  (The lock serialises the calls and the paths are not read again.)
\<close>

record 's donutDriver =
  donut :: "'s Donut option"

record BucketMetadata =
  Name :: string
  Created :: Time
  ACL :: string

record ObjectMetadata =
  Bucket :: string
  Key :: string
  ContentType :: string
  ObjCreated :: Time
  Md5 :: string
  Size :: int64

text \<open>
  The errors the driver returns. \<open>iodine.New\<close> wraps an error with a stack trace and
  a map of parameters and \<open>iodine.ToError\<close> takes the wrapping off; the model keeps
  the wrapped error. An error of the donut layer handed on unchanged is
  \<open>DonutError\<close>; a run-time panic unwinding the call is \<open>RuntimePanic\<close>.
\<close>

datatype error =
    InternalError
  | InvalidACL string
  | BucketExists string
  | BucketNameInvalid string
  | BucketNotFound string
  | ObjectNameInvalid string
  | ObjectNotFound string string
  | InvalidRange int64 int64
  | EOF
  | CorruptInputError
  | DonutError donut_error
  | RuntimePanic panic

text \<open>\<open>!drivers.IsValidBucket(bucketName) || strings.Contains(bucketName, ".")\<close>\<close>

definition bucket_refused :: "drivers \<Rightarrow> string \<Rightarrow> bool" where
  "bucket_refused V bucketName = (\<not> IsValidBucket V bucketName \<or> Contains_dot bucketName)"

text \<open>\<open>!drivers.IsValidObjectName(objectName) || strings.TrimSpace(objectName) == ""\<close>\<close>

definition object_refused :: "drivers \<Rightarrow> string \<Rightarrow> bool" where
  "object_refused V objectName = (\<not> IsValidObjectName V objectName \<or> TrimSpace objectName = [])"

text \<open>
  Modelled from the spec: \<open>IsDelimiterSet\<close> of \<open>drivers.BucketResourcesMetadata\<close>, which
  the driver calls and does not define; the specification's "when a delimiter is set".
\<close>

definition IsDelimiterSet :: "BucketResourcesMetadata \<Rightarrow> bool" where
  "IsDelimiterSet r = (Delimiter r \<noteq> [])"

subsection \<open>Buckets\<close>

text \<open>
  \<open>sort.Sort(byBucketName(results))\<close>: ascending by \<open>Name\<close>, strings compared byte by
  byte. The names are the keys of a map, so they are distinct and the sorted
  arrangement is the only one.
\<close>

definition sort_byBucketName :: "BucketMetadata list \<Rightarrow> BucketMetadata list" where
  "sort_byBucketName results = sort_key Name results"

definition ListBuckets ::
  "'s donutDriver \<Rightarrow> 's world \<Rightarrow> (error + BucketMetadata list) \<times> 's world" where
  "ListBuckets drv w =
     (case donut drv of
        None \<Rightarrow> (Inl InternalError, w)
      | Some d \<Rightarrow>
          (case donut_ListBuckets d (store w) of
             Inl e \<Rightarrow> (Inl (DonutError e), touch ListBuckets_call w)
           | Inr buckets \<Rightarrow>
               (Inr (sort_byBucketName
                       (map (\<lambda>(name, metadata).
                               \<lparr>Name = name, Created = donut_Created metadata, ACL = []\<rparr>)
                            buckets)),
                touch ListBuckets_call w)))"

definition CreateBucket ::
  "drivers \<Rightarrow> 's donutDriver \<Rightarrow> string \<Rightarrow> string \<Rightarrow> 's world \<Rightarrow> error option \<times> 's world" where
  "CreateBucket V drv bucketName acl w =
     (case donut drv of
        None \<Rightarrow> (Some InternalError, w)
      | Some d \<Rightarrow>
          if \<not> IsValidBucketACL V acl then (Some (InvalidACL acl), w)
          else if IsValidBucket V bucketName \<and> \<not> Contains_dot bucketName then
            (let acl1 = (if TrimSpace acl = [] then ''private'' else acl);
                 (err, s1) = donut_MakeBucket d bucketName acl1 (store w);
                 w1 = touch (MakeBucket_call bucketName acl1) (w\<lparr>store := s1\<rparr>)
             in case err of
                  None \<Rightarrow> (None, w1)
                | Some donut_BucketExists \<Rightarrow> (Some (BucketExists bucketName), w1)
                | Some e \<Rightarrow> (Some (DonutError e), w1))
          else (Some (BucketNameInvalid bucketName), w))"

definition GetBucketMetadata ::
  "drivers \<Rightarrow> 's donutDriver \<Rightarrow> string \<Rightarrow> 's world \<Rightarrow> (error + BucketMetadata) \<times> 's world" where
  "GetBucketMetadata V drv bucketName w =
     (case donut drv of
        None \<Rightarrow> (Inl InternalError, w)
      | Some d \<Rightarrow>
          if bucket_refused V bucketName then (Inl (BucketNameInvalid bucketName), w)
          else
            (case donut_GetBucketMetadata d bucketName (store w) of
               Inl e \<Rightarrow> (Inl (BucketNotFound bucketName), touch (GetBucketMetadata_call bucketName) w)
             | Inr metadata \<Rightarrow>
                 (Inr \<lparr>Name = bucketName, Created = donut_Created metadata,
                       ACL = donut_ACL metadata\<rparr>,
                  touch (GetBucketMetadata_call bucketName) w)))"

definition SetBucketMetadata ::
  "drivers \<Rightarrow> 's donutDriver \<Rightarrow> string \<Rightarrow> string \<Rightarrow> 's world \<Rightarrow> error option \<times> 's world" where
  "SetBucketMetadata V drv bucketName acl w =
     (case donut drv of
        None \<Rightarrow> (Some InternalError, w)
      | Some d \<Rightarrow>
          if bucket_refused V bucketName then (Some (BucketNameInvalid bucketName), w)
          else
            (let acl1 = (if TrimSpace acl = [] then ''private'' else acl);
                 (err, s1) = donut_SetBucketMetadata d bucketName [''acl'' \<mapsto> acl1] (store w);
                 w1 = touch (SetBucketMetadata_call bucketName) (w\<lparr>store := s1\<rparr>)
             in case err of
                  None \<Rightarrow> (None, w1)
                | Some e \<Rightarrow> (Some (BucketNotFound bucketName), w1)))"

subsection \<open>Reading objects\<close>

text \<open>
  \<open>GetObject\<close> and \<open>GetPartialObject\<close> return the count, the error if any, and (in the
  model) the bytes that reached the caller's writer.
\<close>

definition GetObject ::
  "drivers \<Rightarrow> 's donutDriver \<Rightarrow> string \<Rightarrow> string \<Rightarrow> 's world
     \<Rightarrow> (int64 \<times> error option) \<times> byte list \<times> 's world" where
  "GetObject V drv bucketName objectName w =
     (case donut drv of
        None \<Rightarrow> ((0, Some InternalError), [], w)
      | Some d \<Rightarrow>
          if bucket_refused V bucketName then ((0, Some (BucketNameInvalid bucketName)), [], w)
          else if object_refused V objectName
          then ((0, Some (ObjectNameInvalid objectName)), [], w)
          else
            (case donut_GetObject d bucketName objectName (store w) of
               Inl e \<Rightarrow>
                 ((0, Some (ObjectNotFound bucketName objectName)), [],
                  touch (GetObject_call bucketName objectName) w)
             | Inr (reader, sz) \<Rightarrow>
                 (let (written, rest, n, eof) = CopyN reader sz
                  in ((n, if eof then Some EOF else None), written,
                      touch (GetObject_call bucketName objectName) w))))"

definition GetPartialObject ::
  "drivers \<Rightarrow> 's donutDriver \<Rightarrow> string \<Rightarrow> string \<Rightarrow> int64 \<Rightarrow> int64 \<Rightarrow> 's world
     \<Rightarrow> (error + int64) \<times> byte list \<times> 's world" where
  "GetPartialObject V drv bucketName objectName start len w =
     (case donut drv of
        None \<Rightarrow> (Inl InternalError, [], w)
      | Some d \<Rightarrow>
          if bucket_refused V bucketName then (Inl (BucketNameInvalid bucketName), [], w)
          else if object_refused V objectName then (Inl (ObjectNameInvalid objectName), [], w)
          else if start <s 0 then (Inl (InvalidRange start len), [], w)
          else
            (case donut_GetObject d bucketName objectName (store w) of
               Inl e \<Rightarrow>
                 (Inl (ObjectNotFound bucketName objectName), [],
                  touch (GetObject_call bucketName objectName) w)
             | Inr (reader, sz) \<Rightarrow>
                 (let w1 = touch (GetObject_call bucketName objectName) w
                  in if sz <s start \<or> sz <s start + len - 1
                     then (Inl (InvalidRange start len), [], w1)
                     else
                       (let (discarded, rest, n0, eof0) = CopyN reader start
                        in if eof0 then (Inl EOF, [], w1)
                           else
                             (let (written, rest1, n, eof) = CopyN rest len
                              in if eof then (Inl EOF, written, w1)
                                 else (Inr n, written, w1))))))"

definition GetObjectMetadata ::
  "drivers \<Rightarrow> 's donutDriver \<Rightarrow> string \<Rightarrow> string \<Rightarrow> 's world
     \<Rightarrow> (error + ObjectMetadata) \<times> 's world" where
  "GetObjectMetadata V drv bucketName objectName w =
     (case donut drv of
        None \<Rightarrow> (Inl InternalError, w)
      | Some d \<Rightarrow>
          if bucket_refused V bucketName then (Inl (BucketNameInvalid bucketName), w)
          else if object_refused V objectName then (Inl (ObjectNameInvalid objectName), w)
          else
            (case donut_GetObjectMetadata d bucketName objectName (store w) of
               Inl e \<Rightarrow>
                 (Inl (ObjectNotFound bucketName objectName),
                  touch (GetObjectMetadata_call bucketName objectName) w)
             | Inr metadata \<Rightarrow>
                 (Inr \<lparr>Bucket = bucketName, Key = objectName,
                       ContentType =
                         (case donut_Metadata metadata ''contentType'' of
                            None \<Rightarrow> [] | Some c \<Rightarrow> c),
                       ObjCreated = donut_ObjCreated metadata,
                       Md5 = donut_MD5Sum metadata,
                       Size = donut_Size metadata\<rparr>,
                  touch (GetObjectMetadata_call bucketName objectName) w)))"

subsection \<open>Listing objects\<close>

text \<open>Indexing a slice: Go checks the index at run time and panics outside the slice.\<close>

definition index :: "'a list \<Rightarrow> int \<Rightarrow> panic + 'a" where
  "index xs i = (if 0 \<le> i \<and> i < int (length xs) then Inr (xs ! nat i) else Inl IndexOutOfRange)"

text \<open>
  The loop of \<open>ListObjects\<close> over the keys the donut returned: one metadata record for
  each, the struct literal \<open>drivers.ObjectMetadata{Key: ..., Created: ..., Size: ...}\<close>,
  whose other fields are at their zero value. The first failing lookup ends the call.
\<close>

definition ListObjects_metadata :: "string \<Rightarrow> donut_ObjectMetadata \<Rightarrow> ObjectMetadata" where
  "ListObjects_metadata objectName objectMetadata =
     \<lparr>Bucket = [], Key = objectName, ContentType = [],
      ObjCreated = donut_ObjCreated objectMetadata, Md5 = [],
      Size = donut_Size objectMetadata\<rparr>"

fun ListObjects_loop ::
  "'s Donut \<Rightarrow> string \<Rightarrow> string list \<Rightarrow> ObjectMetadata list \<Rightarrow> 's world
     \<Rightarrow> (error + ObjectMetadata list) \<times> 's world" where
  "ListObjects_loop d bucketName [] results w = (Inr results, w)"
| "ListObjects_loop d bucketName (objectName # rest) results w =
     (let w1 = touch (GetObjectMetadata_call bucketName objectName) w
      in case donut_GetObjectMetadata d bucketName objectName (store w) of
           Inl e \<Rightarrow> (Inl (DonutError e), w1)
         | Inr objectMetadata \<Rightarrow>
             ListObjects_loop d bucketName rest
               (results @ [ListObjects_metadata objectName objectMetadata]) w1)"

text \<open>\<open>sort.Sort(byObjectKey(results))\<close>\<close>

definition sort_byObjectKey :: "ObjectMetadata list \<Rightarrow> ObjectMetadata list" where
  "sort_byObjectKey results = sort_key Key results"

definition ListObjects ::
  "drivers \<Rightarrow> 's donutDriver \<Rightarrow> string \<Rightarrow> BucketResourcesMetadata \<Rightarrow> 's world
     \<Rightarrow> (error + ObjectMetadata list \<times> BucketResourcesMetadata) \<times> 's world" where
  "ListObjects V drv bucketName resources w =
     (case donut drv of
        None \<Rightarrow> (Inl InternalError, w)
      | Some d \<Rightarrow>
          if bucket_refused V bucketName then (Inl (BucketNameInvalid bucketName), w)
          else if \<not> IsValidObjectName V (Prefix resources)
          then (Inl (ObjectNameInvalid (Prefix resources)), w)
          else
            (let w1 = touch (ListObjects_call bucketName) w
             in case donut_ListObjects d bucketName (Prefix resources) (Marker resources)
                       (Delimiter resources) (Maxkeys resources) (store w) of
                  Inl e \<Rightarrow> (Inl (DonutError e), w1)
                | Inr (actualObjects, commonPrefixes, isTruncated) \<Rightarrow>
                    (let resources1 =
                           resources\<lparr>CommonPrefixes := commonPrefixes, IsTruncated := isTruncated\<rparr>;
                         marker =
                           (if IsTruncated resources1 \<and> IsDelimiterSet resources1
                            then index actualObjects (int (length actualObjects) - 1)
                            else Inr (NextMarker resources1))
                     in case marker of
                          Inl p \<Rightarrow> (Inl (RuntimePanic p), w1)
                        | Inr m \<Rightarrow>
                            (case ListObjects_loop d bucketName actualObjects [] w1 of
                               (Inl e, w2) \<Rightarrow> (Inl e, w2)
                             | (Inr results, w2) \<Rightarrow>
                                 (Inr (sort_byObjectKey results, resources1\<lparr>NextMarker := m\<rparr>),
                                  w2)))))"

subsection \<open>Writing objects\<close>

text \<open>
  Lines 477 to 483 of \<open>CreateObject\<close>: an expected MD5 that is not blank is trimmed,
  decoded from base64 (the call ends with the decoder's error if that fails) and
  written in hexadecimal; a blank one is left as it is.
\<close>

definition expectedMD5Sum_hex :: "string \<Rightarrow> error + string" where
  "expectedMD5Sum_hex expectedMD5Sum =
     (if TrimSpace expectedMD5Sum \<noteq> [] then
        (case DecodeString (TrimSpace expectedMD5Sum) of
           None \<Rightarrow> Inl CorruptInputError
         | Some expectedMD5SumBytes \<Rightarrow> Inr (EncodeToString expectedMD5SumBytes))
      else Inr expectedMD5Sum)"

text \<open>
  Lines 484 to 488: the call of \<open>d.donut.PutObject\<close> with the bucket, the key, the
  expected MD5, the reader and the metadata, and what \<open>CreateObject\<close> returns from it.
\<close>

definition CreateObject_put ::
  "'s Donut \<Rightarrow> string \<Rightarrow> string \<Rightarrow> string \<Rightarrow> byte list \<Rightarrow> (string \<rightharpoonup> string) \<Rightarrow> 's world
     \<Rightarrow> (error + string) \<times> 's world" where
  "CreateObject_put d bucketName objectName expectedMD5Sum reader metadata w =
     (let (r, s1) =
            donut_PutObject d bucketName objectName expectedMD5Sum reader metadata (store w);
          w1 = touch (PutObject_call bucketName objectName expectedMD5Sum) (w\<lparr>store := s1\<rparr>)
      in case r of
           Inl e \<Rightarrow> (Inl (DonutError e), w1)
         | Inr calculatedMD5Sum \<Rightarrow> (Inr calculatedMD5Sum, w1))"

definition CreateObject ::
  "drivers \<Rightarrow> 's donutDriver \<Rightarrow> string \<Rightarrow> string \<Rightarrow> string \<Rightarrow> string \<Rightarrow> int64 \<Rightarrow> byte list
     \<Rightarrow> 's world \<Rightarrow> (error + string) \<times> 's world" where
  "CreateObject V drv bucketName objectName contentType expectedMD5Sum sz reader w =
     (case donut drv of
        None \<Rightarrow> (Inl InternalError, w)
      | Some d \<Rightarrow>
          if bucket_refused V bucketName then (Inl (BucketNameInvalid bucketName), w)
          else if object_refused V objectName then (Inl (ObjectNameInvalid objectName), w)
          else
            (let contentType1 =
                   (if TrimSpace contentType = [] then ''application/octet-stream''
                    else contentType);
                 metadata =
                   [''contentType'' \<mapsto> TrimSpace contentType1,
                    ''contentLength'' \<mapsto> FormatInt sz]
             in case expectedMD5Sum_hex expectedMD5Sum of
                  Inl e \<Rightarrow> (Inl e, w)
                | Inr expectedMD5Sum1 \<Rightarrow>
                    CreateObject_put d bucketName objectName expectedMD5Sum1 reader metadata w))"

text \<open>
  Modelled from the spec: \<open>PutObject\<close> of the donut layer, which is not part of the
  driver; steps 3, 4 and 6 of the write pipeline, without the shard layout. "Maintain a
  running MD5 over the raw payload. On end-of-stream, if the running MD5 differs from
  the expected MD5 (when supplied), delete all shards for this object and fail with
  BadDigest. Return the calculated MD5"; "empty expected-MD5 disables the check". The
  digest function (MD5, written in hexadecimal) is a parameter.
\<close>

record stored_object =
  payload :: "byte list"
  md5sum :: string
  attributes :: "string \<rightharpoonup> string"

type_synonym spec_store = "string \<times> string \<rightharpoonup> stored_object"

definition spec_PutObject ::
  "(byte list \<Rightarrow> string) \<Rightarrow> string \<Rightarrow> string \<Rightarrow> string \<Rightarrow> byte list \<Rightarrow> (string \<rightharpoonup> string)
     \<Rightarrow> spec_store \<Rightarrow> (donut_error + string) \<times> spec_store" where
  "spec_PutObject md5hex bucket key expected data metadata s =
     (let calculated = md5hex data
      in if expected \<noteq> [] \<and> expected \<noteq> calculated then (Inl donut_BadDigest, s)
         else (Inr calculated,
               s((bucket, key) \<mapsto> \<lparr>payload = data, md5sum = calculated, attributes = metadata\<rparr>)))"

section \<open>The disk layer (pkg/storage/donut/disk)\<close>

text \<open>
  What \<open>New\<close> asks the operating system: \<open>syscall.Statfs\<close> and \<open>os.Stat\<close>, each failing
  with an error number or returning its structure. \<open>getFSType\<close>, which maps the type
  field of the \<open>statfs\<close> result to a name and every type it does not know to
  \<open>UNKNOWN\<close>, is defined outside the file: a parameter of \<open>New\<close>.
\<close>

record Statfs_t =
  Type :: int64

record FileInfo =
  IsDir :: bool

record filesystem =
  Statfs :: "string \<Rightarrow> nat + Statfs_t"
  Stat :: "string \<Rightarrow> nat + FileInfo"

datatype disk_error =
    InvalidArgument
  | UnsupportedFilesystem string
  | Errno nat
  | PathError nat

definition ENOTDIR :: disk_error where
  "ENOTDIR = Errno 20"

record Disk =
  path :: string
  fsInfo :: "string \<rightharpoonup> string"

definition New :: "(int64 \<Rightarrow> string) \<Rightarrow> filesystem \<Rightarrow> string \<Rightarrow> disk_error + Disk" where
  "New getFSType fs diskPath =
     (if diskPath = [] then Inl InvalidArgument
      else
        (case Statfs fs diskPath of
           Inl e \<Rightarrow> Inl (Errno e)
         | Inr s \<Rightarrow>
             (case Stat fs diskPath of
                Inl e \<Rightarrow> Inl (PathError e)
              | Inr st \<Rightarrow>
                  if \<not> IsDir st then Inl ENOTDIR
                  else if getFSType (Type s) \<noteq> ''UNKNOWN''
                  then Inr \<lparr>path = diskPath,
                            fsInfo = [''FSType'' \<mapsto> getFSType (Type s),
                                      ''MountPoint'' \<mapsto> diskPath]\<rparr>
                  else Inl (UnsupportedFilesystem (FormatInt (Type s))))))"

section \<open>Concrete inputs\<close>

text \<open>
  Modelled from the spec: the checks of package \<open>drivers\<close>, which are not part of the
  driver. A bucket name is made of "lowercase letters, digits, hyphens; 3 to 63 chars".
  The ACLs are "exactly private, public-read, public-read-write, authenticated-read;
  empty string defaults to private". The specification leaves the object-name
  predicate open and lists objects with the prefix \<open>""\<close>: here it accepts every name.
\<close>

definition bucket_char :: "char \<Rightarrow> bool" where
  "bucket_char c =
     ((97 \<le> (of_char c :: nat) \<and> (of_char c :: nat) \<le> 122) \<or> is_digit c \<or> c = CHR ''-'')"

definition spec_drivers :: drivers where
  "spec_drivers =
     \<lparr>IsValidBucket = (\<lambda>name. 3 \<le> length name \<and> length name \<le> 63 \<and> list_all bucket_char name),
      IsValidObjectName = (\<lambda>name. True),
      IsValidBucketACL =
        (\<lambda>acl. acl \<in> set [''private'', ''public-read'', ''public-read-write'',
                             ''authenticated-read'', []])\<rparr>"

text \<open>
  A donut to run the driver on: the buckets and the answer of \<open>ListObjects\<close> are fixed,
  the objects are those of the store, each as long as its payload, and \<open>PutObject\<close> is
  the one modelled from the specification.
\<close>

definition example_donut ::
  "(byte list \<Rightarrow> string) \<Rightarrow> (string \<times> donut_BucketMetadata) list
     \<Rightarrow> string list \<times> string list \<times> bool \<Rightarrow> spec_store Donut" where
  "example_donut md5hex buckets listing =
     \<lparr>donut_ListBuckets = (\<lambda>s. Inr buckets),
      donut_MakeBucket =
        (\<lambda>b acl s. (if b \<in> fst ` set buckets then Some donut_BucketExists else None, s)),
      donut_GetBucketMetadata =
        (\<lambda>b s. case map_of buckets b of
                  None \<Rightarrow> Inl (donut_failure ''no such bucket'')
                | Some m \<Rightarrow> Inr m),
      donut_SetBucketMetadata = (\<lambda>b m s. (None, s)),
      donut_GetObject =
        (\<lambda>b k s. case s (b, k) of
                    None \<Rightarrow> Inl (donut_failure ''no such object'')
                  | Some ob \<Rightarrow> Inr (payload ob, of_nat (length (payload ob)))),
      donut_GetObjectMetadata =
        (\<lambda>b k s. case s (b, k) of
                    None \<Rightarrow> Inl (donut_failure ''no such object'')
                  | Some ob \<Rightarrow>
                      Inr \<lparr>donut_ObjCreated = 1430000000, donut_MD5Sum = md5sum ob,
                           donut_Size = of_nat (length (payload ob)),
                           donut_Metadata = attributes ob\<rparr>),
      donut_ListObjects = (\<lambda>b p m dl mk s. Inr listing),
      donut_PutObject = spec_PutObject md5hex\<rparr>"

text \<open>A stand-in for the digest: right on the empty payload and on \<open>abc\<close>.\<close>

definition example_md5hex :: "byte list \<Rightarrow> string" where
  "example_md5hex data =
     (if data = [] then ''d41d8cd98f00b204e9800998ecf8427e''
      else ''900150983cd24fb0d6963f7d28e17f72'')"

definition abc :: "byte list" where
  "abc = [97, 98, 99]"

definition cat_jpg :: stored_object where
  "cat_jpg =
     \<lparr>payload = abc, md5sum = ''900150983cd24fb0d6963f7d28e17f72'',
      attributes = [''contentType'' \<mapsto> ''image/jpeg'']\<rparr>"

definition photos_store :: spec_store where
  "photos_store = [(''photos'', ''cat.jpg'') \<mapsto> cat_jpg]"

definition photos_donut :: "string list \<times> string list \<times> bool \<Rightarrow> spec_store Donut" where
  "photos_donut listing =
     example_donut example_md5hex
       [(''photos'', \<lparr>donut_Created = 1430000000, donut_ACL = ''public-read''\<rparr>),
        (''backups'', \<lparr>donut_Created = 1420000000, donut_ACL = ''private''\<rparr>)]
       listing"

definition photos_driver :: "string list \<times> string list \<times> bool \<Rightarrow> spec_store donutDriver" where
  "photos_driver listing = \<lparr>donut = Some (photos_donut listing)\<rparr>"

definition photos_world :: "spec_store world" where
  "photos_world = \<lparr>store = photos_store, accesses = []\<rparr>"

text \<open>A driver whose donut could not be made at start.\<close>

definition broken_driver :: "spec_store donutDriver" where
  "broken_driver = \<lparr>donut = None\<rparr>"

text \<open>
  A file system with a directory and a regular file on ext4 (type \<open>0xEF53\<close>) and a
  directory and a regular file on a file system \<open>getFSType\<close> does not know.
\<close>

definition example_getFSType :: "int64 \<Rightarrow> string" where
  "example_getFSType t = (if t = 0xEF53 then ''EXT4'' else ''UNKNOWN'')"

definition example_fs :: filesystem where
  "example_fs =
     \<lparr>Statfs =
        (\<lambda>p. if p = ''/mnt/disk1'' \<or> p = ''/mnt/notes.txt'' then Inr \<lparr>Type = 0xEF53\<rparr>
              else if p = ''/mnt/floppy'' \<or> p = ''/mnt/floppy/readme.txt''
              then Inr \<lparr>Type = 0x4d44\<rparr>
              else Inl 2),
      Stat =
        (\<lambda>p. if p = ''/mnt/disk1'' \<or> p = ''/mnt/floppy'' then Inr \<lparr>IsDir = True\<rparr>
              else if p = ''/mnt/notes.txt'' \<or> p = ''/mnt/floppy/readme.txt''
              then Inr \<lparr>IsDir = False\<rparr>
              else Inl 2)\<rparr>"

text \<open>The digits of lowercase hexadecimal.\<close>

definition lowercase_hex :: "string \<Rightarrow> bool" where
  "lowercase_hex s = list_all (\<lambda>c. c \<in> set ''0123456789abcdef'') s"

section \<open>Query parsing: what the code does\<close>

text \<open>\<open>isRequestBucketACL\<close> looks at the first entry of the traversal and at no other.\<close>

lemma isRequestBucketACL_first_entry:
  "isRequestBucketACL vals = (\<exists>val rest. vals = (''acl'', val) # rest)"
  by (cases vals) (auto split: if_splits)

text \<open>
  C3 says that \<open>isRequestBucketACL\<close> is true exactly when the query values have a key
  \<open>acl\<close>, whatever the other keys are and in whatever order they are visited. The
  \<open>default\<close> branch of the \<open>switch\<close> returns from inside the loop, so the answer is that
  of the first key visited: for the values of \<open>?prefix=photos/&acl\<close>, visited with
  \<open>prefix\<close> first, the key \<open>acl\<close> is there and the function returns false.
\<close>

theorem isRequestBucketACL_misses_acl:
  "''acl'' \<in> keys_of [(''prefix'', [''photos/'']), (''acl'', [[]])] \<and>
   isRequestBucketACL [(''prefix'', [''photos/'']), (''acl'', [[]])] = False"
  by (simp add: keys_of_def)

subsection \<open>The numbers of a query\<close>

lemma ParseUint_loop_syntax: "snd (ParseUint_loop s n) = Some ErrSyntax \<Longrightarrow> fst (ParseUint_loop s n) = 0"
  by (induction s n rule: ParseUint_loop.induct) (auto split: if_splits)

lemma Atoi_syntax_zero: "snd (Atoi s) = Some ErrSyntax \<Longrightarrow> fst (Atoi s) = 0"
  by (auto simp: Atoi_def ParseInt_def Let_def split: list.splits prod.splits if_splits)

lemma Atoi_range_clamped: "snd (Atoi s) = Some ErrRange \<Longrightarrow> fst (Atoi s) = maxInt64 \<or> fst (Atoi s) = minInt64"
  by (auto simp: Atoi_def ParseInt_def Let_def split: list.splits prod.splits if_splits)

lemma ParseUint_loop_range: "snd (ParseUint_loop s n) = Some ErrRange \<Longrightarrow> fst (ParseUint_loop s n) = maxUint64"
  by (induction s n rule: ParseUint_loop.induct) (auto split: if_splits)

lemma ParseUint_loop_malformed: "\<not> list_all is_digit s \<Longrightarrow> snd (ParseUint_loop s n) \<noteq> None"
  by (induction s n rule: ParseUint_loop.induct) (auto split: if_splits)

lemma ParseUint_malformed:
  assumes "s = [] \<or> \<not> list_all is_digit s"
  shows "ParseUint s = (0, Some ErrSyntax) \<or> ParseUint s = (maxUint64, Some ErrRange)"
proof (cases "s = []")
  case True
  then show ?thesis by (simp add: ParseUint_def)
next
  case False
  with assms have "snd (ParseUint_loop s 0) \<noteq> None" using ParseUint_loop_malformed by blast
  then obtain e where e: "snd (ParseUint_loop s 0) = Some e" by auto
  show ?thesis
  proof (cases e)
    case ErrSyntax
    then have "fst (ParseUint_loop s 0) = 0" using e ParseUint_loop_syntax by blast
    then show ?thesis using e ErrSyntax False by (simp add: ParseUint_def prod_eq_iff)
  next
    case ErrRange
    then have "fst (ParseUint_loop s 0) = maxUint64" using e ParseUint_loop_range by blast
    then show ?thesis using e ErrRange False by (simp add: ParseUint_def prod_eq_iff)
  qed
qed

lemma Atoi_malformed:
  assumes "\<not> well_formed_integer s"
  shows "snd (Atoi s) \<noteq> None"
proof (cases s)
  case Nil
  then show ?thesis by (simp add: Atoi_def ParseInt_def)
next
  case (Cons c cs)
  define s1 where "s1 = (if c = CHR ''+'' \<or> c = CHR ''-'' then cs else s)"
  have "s1 = [] \<or> \<not> list_all is_digit s1"
    using assms Cons by (auto simp: well_formed_integer_def s1_def Let_def)
  then have "ParseUint s1 = (0, Some ErrSyntax) \<or> ParseUint s1 = (maxUint64, Some ErrRange)"
    by (rule ParseUint_malformed)
  then show ?thesis
    using Cons unfolding Atoi_def ParseInt_def s1_def
    by (auto simp: Let_def maxUint64_def)
qed

lemma getBucketResources_case_Maxkeys:
  "getBucketResources_case key val v = Inr v' \<Longrightarrow>
     Maxkeys v' = (if key = ''max-keys'' then fst (Atoi (hd val)) else Maxkeys v)"
  by (auto simp: getBucketResources_case_def index0_def split: if_splits list.splits)

lemma getBucketResources_case_total:
  "val \<noteq> [] \<Longrightarrow> \<exists>v'. getBucketResources_case key val v = Inr v'"
  by (auto simp: getBucketResources_case_def index0_def split: list.splits)

lemma getBucketResources_loop_total:
  "\<forall>(k, vs) \<in> set vals. vs \<noteq> [] \<Longrightarrow> \<exists>v'. getBucketResources_loop vals v = Inr v'"
proof (induction vals arbitrary: v)
  case Nil
  then show ?case by simp
next
  case (Cons kv vals)
  obtain key val where kv: "kv = (key, val)" by (cases kv)
  with Cons.prems have "val \<noteq> []" by simp
  then obtain v1 where "getBucketResources_case key val v = Inr v1"
    using getBucketResources_case_total by blast
  moreover have "\<exists>v'. getBucketResources_loop vals v1 = Inr v'"
    using Cons by simp
  ultimately show ?case using kv by simp
qed

lemma getBucketResources_loop_Maxkeys_absent:
  "''max-keys'' \<notin> fst ` set vals \<Longrightarrow> getBucketResources_loop vals v = Inr v' \<Longrightarrow>
     Maxkeys v' = Maxkeys v"
proof (induction vals arbitrary: v)
  case Nil
  then show ?case by simp
next
  case (Cons kv vals)
  obtain key val where kv: "kv = (key, val)" by (cases kv)
  from Cons.prems kv obtain v1 where
    v1: "getBucketResources_case key val v = Inr v1" "getBucketResources_loop vals v1 = Inr v'"
    by (auto split: sum.splits)
  have "key \<noteq> ''max-keys''" using Cons.prems kv by auto
  then have "Maxkeys v1 = Maxkeys v" using getBucketResources_case_Maxkeys[OF v1(1)] by simp
  moreover have "Maxkeys v' = Maxkeys v1" using Cons.IH[OF _ v1(2)] Cons.prems(1) by simp
  ultimately show ?case by simp
qed

lemma getBucketResources_loop_Maxkeys:
  "distinct (map fst vals) \<Longrightarrow> (''max-keys'', x # xs) \<in> set vals \<Longrightarrow>
   getBucketResources_loop vals v = Inr v' \<Longrightarrow> Maxkeys v' = fst (Atoi x)"
proof (induction vals arbitrary: v)
  case Nil
  then show ?case by simp
next
  case (Cons kv vals)
  obtain key val where kv: "kv = (key, val)" by (cases kv)
  from Cons.prems kv obtain v1 where
    v1: "getBucketResources_case key val v = Inr v1" "getBucketResources_loop vals v1 = Inr v'"
    by (auto split: sum.splits)
  show ?case
  proof (cases "kv = (''max-keys'', x # xs)")
    case True
    then have "Maxkeys v1 = fst (Atoi x)"
      using getBucketResources_case_Maxkeys[OF v1(1)] kv by simp
    moreover have "''max-keys'' \<notin> fst ` set vals" using Cons.prems(1) True by auto
    ultimately show ?thesis using getBucketResources_loop_Maxkeys_absent v1(2) by metis
  next
    case False
    then have "(''max-keys'', x # xs) \<in> set vals" using Cons.prems(2) by simp
    then show ?thesis using Cons.IH v1(2) Cons.prems(1) by simp
  qed
qed

lemma getObjectResources_case_fields:
  "getObjectResources_case key val v = Inr v' \<Longrightarrow>
     PartNumberMarker v' =
       (if key = ''part-number-marker'' then fst (Atoi (hd val)) else PartNumberMarker v) \<and>
     MaxParts v' = (if key = ''max-parts'' then fst (Atoi (hd val)) else MaxParts v)"
  by (auto simp: getObjectResources_case_def index0_def split: if_splits list.splits)

lemma getObjectResources_case_total:
  "val \<noteq> [] \<Longrightarrow> \<exists>v'. getObjectResources_case key val v = Inr v'"
  by (auto simp: getObjectResources_case_def index0_def split: list.splits)

lemma getObjectResources_loop_total:
  "\<forall>(k, vs) \<in> set vals. vs \<noteq> [] \<Longrightarrow> \<exists>v'. getObjectResources_loop vals v = Inr v'"
proof (induction vals arbitrary: v)
  case Nil
  then show ?case by simp
next
  case (Cons kv vals)
  obtain key val where kv: "kv = (key, val)" by (cases kv)
  with Cons.prems have "val \<noteq> []" by simp
  then obtain v1 where "getObjectResources_case key val v = Inr v1"
    using getObjectResources_case_total by blast
  moreover have "\<exists>v'. getObjectResources_loop vals v1 = Inr v'"
    using Cons by simp
  ultimately show ?case using kv by simp
qed

lemma getObjectResources_loop_absent:
  "getObjectResources_loop vals v = Inr v' \<Longrightarrow>
     (''part-number-marker'' \<notin> fst ` set vals \<longrightarrow> PartNumberMarker v' = PartNumberMarker v) \<and>
     (''max-parts'' \<notin> fst ` set vals \<longrightarrow> MaxParts v' = MaxParts v)"
proof (induction vals arbitrary: v)
  case Nil
  then show ?case by simp
next
  case (Cons kv vals)
  obtain key val where kv: "kv = (key, val)" by (cases kv)
  from Cons.prems kv obtain v1 where
    v1: "getObjectResources_case key val v = Inr v1" "getObjectResources_loop vals v1 = Inr v'"
    by (auto split: sum.splits)
  show ?case
    using getObjectResources_case_fields[OF v1(1)] Cons.IH[OF v1(2)] kv by auto
qed

lemma getObjectResources_loop_PartNumberMarker:
  "distinct (map fst vals) \<Longrightarrow> (''part-number-marker'', x # xs) \<in> set vals \<Longrightarrow>
   getObjectResources_loop vals v = Inr v' \<Longrightarrow> PartNumberMarker v' = fst (Atoi x)"
proof (induction vals arbitrary: v)
  case Nil
  then show ?case by simp
next
  case (Cons kv vals)
  obtain key val where kv: "kv = (key, val)" by (cases kv)
  from Cons.prems kv obtain v1 where
    v1: "getObjectResources_case key val v = Inr v1" "getObjectResources_loop vals v1 = Inr v'"
    by (auto split: sum.splits)
  show ?case
  proof (cases "kv = (''part-number-marker'', x # xs)")
    case True
    then have "PartNumberMarker v1 = fst (Atoi x)"
      using getObjectResources_case_fields[OF v1(1)] kv by simp
    moreover have "''part-number-marker'' \<notin> fst ` set vals" using Cons.prems(1) True by auto
    ultimately show ?thesis using getObjectResources_loop_absent[OF v1(2)] by simp
  next
    case False
    then have "(''part-number-marker'', x # xs) \<in> set vals" using Cons.prems(2) by simp
    then show ?thesis using Cons.IH v1(2) Cons.prems(1) by simp
  qed
qed

lemma getObjectResources_loop_MaxParts:
  "distinct (map fst vals) \<Longrightarrow> (''max-parts'', x # xs) \<in> set vals \<Longrightarrow>
   getObjectResources_loop vals v = Inr v' \<Longrightarrow> MaxParts v' = fst (Atoi x)"
proof (induction vals arbitrary: v)
  case Nil
  then show ?case by simp
next
  case (Cons kv vals)
  obtain key val where kv: "kv = (key, val)" by (cases kv)
  from Cons.prems kv obtain v1 where
    v1: "getObjectResources_case key val v = Inr v1" "getObjectResources_loop vals v1 = Inr v'"
    by (auto split: sum.splits)
  show ?case
  proof (cases "kv = (''max-parts'', x # xs)")
    case True
    then have "MaxParts v1 = fst (Atoi x)"
      using getObjectResources_case_fields[OF v1(1)] kv by simp
    moreover have "''max-parts'' \<notin> fst ` set vals" using Cons.prems(1) True by auto
    ultimately show ?thesis using getObjectResources_loop_absent[OF v1(2)] by simp
  next
    case False
    then have "(''max-parts'', x # xs) \<in> set vals" using Cons.prems(2) by simp
    then show ?thesis using Cons.IH v1(2) Cons.prems(1) by simp
  qed
qed

text \<open>
  What \<open>ParseUint\<close> makes of a string: a range error as soon as the number its leading
  digits write leaves the unsigned 64-bit range, a syntax error if a byte that is not a
  digit comes first, the number otherwise.
\<close>

lemma digit_val_range: "is_digit c \<Longrightarrow> 0 \<le> digit_val c \<and> digit_val c \<le> 9"
proof -
  assume a: "is_digit c"
  have e: "(of_char c :: int) = int (of_char c :: nat)" by (simp only: of_nat_of_char)
  have "48 \<le> (of_char c :: nat)" "(of_char c :: nat) \<le> 57"
    using a by (simp_all add: is_digit_def)
  then show ?thesis unfolding digit_val_def e by linarith
qed

lemma decimal_value_grows:
  "list_all is_digit ds \<Longrightarrow> 0 \<le> n \<Longrightarrow> n \<le> decimal_value n ds"
proof (induction ds arbitrary: n)
  case Nil
  then show ?case by (simp add: decimal_value_def)
next
  case (Cons c ds)
  have d: "0 \<le> digit_val c" using Cons.prems(1) digit_val_range by simp
  have "n \<le> n * 10 + digit_val c" using Cons.prems(2) d by simp
  moreover have "n * 10 + digit_val c \<le> decimal_value (n * 10 + digit_val c) ds"
    using Cons.IH[of "n * 10 + digit_val c"] Cons.prems d by simp
  ultimately show ?case by (simp add: decimal_value_def)
qed

lemma list_all_takeWhile: "list_all P (takeWhile P xs)"
  by (induction xs) auto

lemma ParseUint_loop_outcome:
  "0 \<le> n \<Longrightarrow> n \<le> maxUint64 \<Longrightarrow>
   ParseUint_loop s n =
     (if decimal_value n (takeWhile is_digit s) > maxUint64 then (maxUint64, Some ErrRange)
      else if takeWhile is_digit s \<noteq> s then (0, Some ErrSyntax)
      else (decimal_value n s, None))"
proof (induction s arbitrary: n)
  case Nil
  then show ?case by (simp add: decimal_value_def)
next
  case (Cons c cs)
  show ?case
  proof (cases "is_digit c")
    case False
    then show ?thesis using Cons.prems by (simp add: decimal_value_def)
  next
    case True
    let ?n1 = "n * 10 + digit_val c"
    have d: "0 \<le> digit_val c" using True digit_val_range by simp
    have n1: "0 \<le> ?n1" using Cons.prems(1) d by simp
    have step: "decimal_value n (takeWhile is_digit (c # cs))
                = decimal_value ?n1 (takeWhile is_digit cs)"
      "decimal_value n (c # cs) = decimal_value ?n1 cs"
      using True by (simp_all add: decimal_value_def)
    show ?thesis
    proof (cases "?n1 > maxUint64")
      case over: True
      have "?n1 \<le> decimal_value ?n1 (takeWhile is_digit cs)"
        using decimal_value_grows[OF list_all_takeWhile n1] .
      then have "decimal_value n (takeWhile is_digit (c # cs)) > maxUint64"
        using over step by simp
      moreover have "ParseUint_loop (c # cs) n = (maxUint64, Some ErrRange)"
        using True over by simp
      ultimately show ?thesis by simp
    next
      case under: False
      then have nc: "\<not> n \<ge> maxUint64 div 10 + 1"
        using d by (simp add: maxUint64_def)
      have "ParseUint_loop (c # cs) n = ParseUint_loop cs ?n1"
        using True under nc by simp
      also have "\<dots> =
        (if decimal_value ?n1 (takeWhile is_digit cs) > maxUint64 then (maxUint64, Some ErrRange)
         else if takeWhile is_digit cs \<noteq> cs then (0, Some ErrSyntax)
         else (decimal_value ?n1 cs, None))"
        using Cons.IH[OF n1] under by simp
      finally show ?thesis using step True by simp
    qed
  qed
qed

lemma Atoi_malformed_value:
  assumes "\<not> well_formed_integer x"
  shows "Atoi x =
    (if leading_digits_overflow x
     then (if has_minus x then minInt64 else maxInt64, Some ErrRange)
     else (0, Some ErrSyntax))"
proof (cases x)
  case Nil
  then show ?thesis
    by (simp add: Atoi_def ParseInt_def leading_digits_overflow_def unsigned_part_def
        decimal_value_def maxUint64_def)
next
  case (Cons c cs)
  let ?s1 = "unsigned_part x"
  have s1: "?s1 = (if c = CHR ''+'' \<or> c = CHR ''-'' then cs else x)"
    using Cons by (simp add: unsigned_part_def)
  have bad: "?s1 = [] \<or> \<not> list_all is_digit ?s1"
    using assms Cons s1 by (auto simp: well_formed_integer_def Let_def)
  have neq: "?s1 \<noteq> [] \<Longrightarrow> takeWhile is_digit ?s1 \<noteq> ?s1"
    using bad by (metis list_all_takeWhile)
  have pu: "ParseUint ?s1 =
    (if leading_digits_overflow x then (maxUint64, Some ErrRange) else (0, Some ErrSyntax))"
  proof (cases "?s1 = []")
    case True
    then show ?thesis
      by (simp add: ParseUint_def leading_digits_overflow_def decimal_value_def maxUint64_def)
  next
    case False
    then show ?thesis
      using ParseUint_loop_outcome[of 0 ?s1] neq
      by (simp add: ParseUint_def leading_digits_overflow_def maxUint64_def)
  qed
  have "ParseInt x =
    (let neg = (c = CHR ''-''); (un, err) = ParseUint ?s1
     in if err = Some ErrSyntax then (0, err)
        else if \<not> neg \<and> un \<ge> 2 ^ 63 then (maxInt64, Some ErrRange)
        else if neg \<and> un > 2 ^ 63 then (minInt64, Some ErrRange)
        else (if neg then - un else un, None))"
    using Cons s1 by (simp add: ParseInt_def Let_def)
  then show ?thesis
    using pu Cons by (simp add: Atoi_def has_minus_def maxUint64_def)
qed

lemma decimal_value_bound:
  "list_all is_digit ds \<Longrightarrow> 0 \<le> n \<Longrightarrow>
     decimal_value n ds \<le> n * 10 ^ length ds + 10 ^ length ds - 1"
proof (induction ds arbitrary: n)
  case Nil
  then show ?case by (simp add: decimal_value_def)
next
  case (Cons c ds)
  let ?k = "(10 :: int) ^ length ds"
  have d: "0 \<le> digit_val c" "digit_val c \<le> 9" using Cons.prems(1) digit_val_range by simp_all
  have "decimal_value n (c # ds) = decimal_value (n * 10 + digit_val c) ds"
    by (simp add: decimal_value_def)
  also have "\<dots> \<le> (n * 10 + digit_val c) * ?k + ?k - 1"
    using Cons.IH[of "n * 10 + digit_val c"] Cons.prems d by simp
  also have "\<dots> \<le> (n * 10 + 9) * ?k + ?k - 1"
  proof -
    have "0 \<le> ?k" by simp
    then have "(n * 10 + digit_val c) * ?k \<le> (n * 10 + 9) * ?k"
      using d(2) by (intro mult_right_mono) simp_all
    then show ?thesis by linarith
  qed
  also have "\<dots> = n * 10 ^ length (c # ds) + 10 ^ length (c # ds) - 1"
    by (simp add: algebra_simps)
  finally show ?case .
qed

lemma short_malformed_no_overflow:
  assumes "\<not> well_formed_integer x" and "length x \<le> 20"
  shows "\<not> leading_digits_overflow x"
proof -
  let ?s1 = "unsigned_part x"
  let ?p = "takeWhile is_digit ?s1"
  have l1: "length ?s1 \<le> length x"
    by (cases x) (auto simp: unsigned_part_def)
  have bad: "?s1 = [] \<or> \<not> list_all is_digit ?s1"
    using assms(1) by (cases x) (auto simp: well_formed_integer_def unsigned_part_def Let_def)
  have "length ?p \<le> 19"
  proof (cases "?s1 = []")
    case True
    then show ?thesis by simp
  next
    case False
    then have "?p \<noteq> ?s1" using bad by (metis list_all_takeWhile)
    then have "length ?p < length ?s1"
      by (metis length_takeWhile_le order_le_less takeWhile_eq_take take_all_iff)
    then show ?thesis using l1 assms(2) by simp
  qed
  then have "(10 :: int) ^ length ?p \<le> 10 ^ 19"
    by (intro power_increasing) simp_all
  moreover have "decimal_value 0 ?p \<le> 10 ^ length ?p - 1"
    using decimal_value_bound[OF list_all_takeWhile[of is_digit ?s1], of 0] by simp
  ultimately have "decimal_value 0 ?p \<le> 10 ^ 19 - 1" by simp
  then show ?thesis by (simp add: leading_digits_overflow_def maxUint64_def)
qed

text \<open>
  C10, as the code has it. A query-value set has distinct keys, each with at least one
  value; then \<open>getBucketResources\<close> and \<open>getObjectResources\<close> return a record: no
  error is surfaced. \<open>max-keys\<close>, \<open>part-number-marker\<close> and \<open>max-parts\<close> hold the number
  \<open>strconv.Atoi\<close> returns for the first value, whose error is dropped. For a value that
  is not a well-formed integer \<open>Atoi\<close> does report an error and the number is 0, unless
  the digits at the start of the value (after an optional sign) already write a number
  beyond the unsigned 64-bit range: then it is the largest 64-bit integer, or the
  smallest after a minus sign. A malformed value of at most 20 bytes always gives 0.
\<close>

theorem malformed_query_number_is_0_or_clamped:
  assumes "distinct (map fst vals)" and "\<forall>(k, vs) \<in> set vals. vs \<noteq> []"
  shows "\<exists>b ob. getBucketResources vals = Inr b \<and> getObjectResources vals = Inr ob \<and>
     (\<forall>x xs. (''max-keys'', x # xs) \<in> set vals \<longrightarrow>
        Maxkeys b = fst (Atoi x) \<and>
        (\<not> well_formed_integer x \<longrightarrow>
           snd (Atoi x) \<noteq> None \<and>
           Maxkeys b =
             (if leading_digits_overflow x then (if has_minus x then minInt64 else maxInt64)
              else 0) \<and>
           (length x \<le> 20 \<longrightarrow> Maxkeys b = 0))) \<and>
     (\<forall>x xs. (''part-number-marker'', x # xs) \<in> set vals \<longrightarrow>
        PartNumberMarker ob = fst (Atoi x) \<and>
        (\<not> well_formed_integer x \<longrightarrow>
           snd (Atoi x) \<noteq> None \<and>
           PartNumberMarker ob =
             (if leading_digits_overflow x then (if has_minus x then minInt64 else maxInt64)
              else 0) \<and>
           (length x \<le> 20 \<longrightarrow> PartNumberMarker ob = 0))) \<and>
     (\<forall>x xs. (''max-parts'', x # xs) \<in> set vals \<longrightarrow>
        MaxParts ob = fst (Atoi x) \<and>
        (\<not> well_formed_integer x \<longrightarrow>
           snd (Atoi x) \<noteq> None \<and>
           MaxParts ob =
             (if leading_digits_overflow x then (if has_minus x then minInt64 else maxInt64)
              else 0) \<and>
           (length x \<le> 20 \<longrightarrow> MaxParts ob = 0)))"
proof -
  obtain b where b: "getBucketResources vals = Inr b"
    using getBucketResources_loop_total[OF assms(2)] by (auto simp: getBucketResources_def)
  obtain ob where ob: "getObjectResources vals = Inr ob"
    using getObjectResources_loop_total[OF assms(2)] by (auto simp: getObjectResources_def)
  have 1: "Maxkeys b = fst (Atoi x)" if "(''max-keys'', x # xs) \<in> set vals" for x xs
    using getBucketResources_loop_Maxkeys[OF assms(1) that] b
    by (simp add: getBucketResources_def)
  have 2: "PartNumberMarker ob = fst (Atoi x)"
    if "(''part-number-marker'', x # xs) \<in> set vals" for x xs
    using getObjectResources_loop_PartNumberMarker[OF assms(1) that] ob
    by (simp add: getObjectResources_def)
  have 3: "MaxParts ob = fst (Atoi x)" if "(''max-parts'', x # xs) \<in> set vals" for x xs
    using getObjectResources_loop_MaxParts[OF assms(1) that] ob
    by (simp add: getObjectResources_def)
  have k: "n = fst (Atoi x) \<and>
        (\<not> well_formed_integer x \<longrightarrow>
           snd (Atoi x) \<noteq> None \<and>
           n = (if leading_digits_overflow x then (if has_minus x then minInt64 else maxInt64)
                else 0) \<and>
           (length x \<le> 20 \<longrightarrow> n = 0))"
    if "n = fst (Atoi x)" for n x
  proof (cases "well_formed_integer x")
    case True
    then show ?thesis using that by simp
  next
    case False
    have "length x \<le> 20 \<longrightarrow> \<not> leading_digits_overflow x"
      using short_malformed_no_overflow[OF False] by simp
    then show ?thesis using that Atoi_malformed_value[OF False] by auto
  qed
  have "\<forall>x xs. (''max-keys'', x # xs) \<in> set vals \<longrightarrow>
        Maxkeys b = fst (Atoi x) \<and>
        (\<not> well_formed_integer x \<longrightarrow>
           snd (Atoi x) \<noteq> None \<and>
           Maxkeys b =
             (if leading_digits_overflow x then (if has_minus x then minInt64 else maxInt64)
              else 0) \<and>
           (length x \<le> 20 \<longrightarrow> Maxkeys b = 0))"
    using 1 k by blast
  moreover have "\<forall>x xs. (''part-number-marker'', x # xs) \<in> set vals \<longrightarrow>
        PartNumberMarker ob = fst (Atoi x) \<and>
        (\<not> well_formed_integer x \<longrightarrow>
           snd (Atoi x) \<noteq> None \<and>
           PartNumberMarker ob =
             (if leading_digits_overflow x then (if has_minus x then minInt64 else maxInt64)
              else 0) \<and>
           (length x \<le> 20 \<longrightarrow> PartNumberMarker ob = 0))"
    using 2 k by blast
  moreover have "\<forall>x xs. (''max-parts'', x # xs) \<in> set vals \<longrightarrow>
        MaxParts ob = fst (Atoi x) \<and>
        (\<not> well_formed_integer x \<longrightarrow>
           snd (Atoi x) \<noteq> None \<and>
           MaxParts ob =
             (if leading_digits_overflow x then (if has_minus x then minInt64 else maxInt64)
              else 0) \<and>
           (length x \<le> 20 \<longrightarrow> MaxParts ob = 0))"
    using 3 k by blast
  ultimately show ?thesis using b ob by blast
qed

theorem malformed_query_number_is_0_or_clamped_witness:
  "distinct (map fst [(''max-keys'', [''abc'']), (''max-parts'', [''99999999999999999999x'']),
                      (''part-number-marker'', [''-99999999999999999999x''])]) \<and>
   \<not> well_formed_integer ''abc'' \<and> \<not> leading_digits_overflow ''abc'' \<and>
   \<not> well_formed_integer ''99999999999999999999x'' \<and>
   leading_digits_overflow ''99999999999999999999x'' \<and>
   \<not> well_formed_integer ''-99999999999999999999x'' \<and>
   leading_digits_overflow ''-99999999999999999999x'' \<and>
   (\<exists>b ob. getBucketResources [(''max-keys'', [''abc'']),
                (''max-parts'', [''99999999999999999999x'']),
                (''part-number-marker'', [''-99999999999999999999x''])] = Inr b \<and>
      getObjectResources [(''max-keys'', [''abc'']),
                (''max-parts'', [''99999999999999999999x'']),
                (''part-number-marker'', [''-99999999999999999999x''])] = Inr ob \<and>
      Maxkeys b = 0 \<and> MaxParts ob = 9223372036854775807 \<and>
      PartNumberMarker ob = - 9223372036854775808)"
proof -
  let ?vals = "[(''max-keys'', [''abc'']), (''max-parts'', [''99999999999999999999x'']),
                (''part-number-marker'', [''-99999999999999999999x''])]"
  have d: "distinct (map fst ?vals)" by simp
  have n: "\<forall>(k, vs) \<in> set ?vals. vs \<noteq> []" by simp
  have w1: "\<not> well_formed_integer ''abc''" "\<not> leading_digits_overflow ''abc''"
    by (code_simp+)
  have w2: "\<not> well_formed_integer ''99999999999999999999x''"
    "leading_digits_overflow ''99999999999999999999x''"
    "\<not> has_minus ''99999999999999999999x''"
    by (code_simp+)
  have w3: "\<not> well_formed_integer ''-99999999999999999999x''"
    "leading_digits_overflow ''-99999999999999999999x''"
    "has_minus ''-99999999999999999999x''"
    by (code_simp+)
  have i1: "(''max-keys'', ''abc'' # []) \<in> set ?vals" by simp
  have i2: "(''max-parts'', ''99999999999999999999x'' # []) \<in> set ?vals" by simp
  have i3: "(''part-number-marker'', ''-99999999999999999999x'' # []) \<in> set ?vals" by simp
  from malformed_query_number_is_0_or_clamped[OF d n]
  obtain b ob where r1: "getBucketResources ?vals = Inr b"
    and r2: "getObjectResources ?vals = Inr ob"
    and m: "\<forall>x xs. (''max-keys'', x # xs) \<in> set ?vals \<longrightarrow>
        Maxkeys b = fst (Atoi x) \<and>
        (\<not> well_formed_integer x \<longrightarrow>
           snd (Atoi x) \<noteq> None \<and>
           Maxkeys b =
             (if leading_digits_overflow x then (if has_minus x then minInt64 else maxInt64)
              else 0) \<and>
           (length x \<le> 20 \<longrightarrow> Maxkeys b = 0))"
    and pn: "\<forall>x xs. (''part-number-marker'', x # xs) \<in> set ?vals \<longrightarrow>
        PartNumberMarker ob = fst (Atoi x) \<and>
        (\<not> well_formed_integer x \<longrightarrow>
           snd (Atoi x) \<noteq> None \<and>
           PartNumberMarker ob =
             (if leading_digits_overflow x then (if has_minus x then minInt64 else maxInt64)
              else 0) \<and>
           (length x \<le> 20 \<longrightarrow> PartNumberMarker ob = 0))"
    and mp: "\<forall>x xs. (''max-parts'', x # xs) \<in> set ?vals \<longrightarrow>
        MaxParts ob = fst (Atoi x) \<and>
        (\<not> well_formed_integer x \<longrightarrow>
           snd (Atoi x) \<noteq> None \<and>
           MaxParts ob =
             (if leading_digits_overflow x then (if has_minus x then minInt64 else maxInt64)
              else 0) \<and>
           (length x \<le> 20 \<longrightarrow> MaxParts ob = 0))"
    by (elim exE conjE) (rule that, assumption+)
  have "Maxkeys b = 0" using m[rule_format, OF i1] w1 by simp
  moreover have "MaxParts ob = 9223372036854775807"
    using mp[rule_format, OF i2] w2 by (simp add: maxInt64_def)
  moreover have "PartNumberMarker ob = - 9223372036854775808"
    using pn[rule_format, OF i3] w3 by (simp add: minInt64_def)
  ultimately have "\<exists>b ob. getBucketResources ?vals = Inr b \<and> getObjectResources ?vals = Inr ob \<and>
      Maxkeys b = 0 \<and> MaxParts ob = 9223372036854775807 \<and>
      PartNumberMarker ob = - 9223372036854775808"
    using r1 r2 by blast
  then show ?thesis using d w1 w2(1,2) w3(1,2) by blast
qed

text \<open>
  C10 as stated fails: twenty nines followed by a letter are not a well-formed integer,
  and \<open>max-keys\<close> becomes the largest 64-bit integer, not 0.
\<close>

theorem malformed_max_keys_counterexample:
  "\<not> well_formed_integer ''99999999999999999999x'' \<and>
   getBucketResources [(''max-keys'', [''99999999999999999999x''])] =
     Inr (zero_BucketResourcesMetadata\<lparr>Maxkeys := 9223372036854775807\<rparr>) \<and>
   getObjectResources [(''max-parts'', [''99999999999999999999x''])] =
     Inr (zero_ObjectResourcesMetadata\<lparr>MaxParts := 9223372036854775807\<rparr>)"
  by code_simp

section \<open>The driver: what the code does\<close>

subsection \<open>ListBuckets\<close>

lemma sort_byBucketName_sorted: "sorted (map Name (sort_byBucketName results))"
  by (simp add: sort_byBucketName_def)

lemma sort_byBucketName_same_records:
  "set (sort_byBucketName results) = set results \<and>
   length (sort_byBucketName results) = length results"
  by (simp add: sort_byBucketName_def)

lemma distinct_map_sort_key: "distinct (map f (sort_key f xs)) = distinct (map f xs)"
  by (induction xs) (auto simp: distinct_insort_key)

text \<open>
  Whatever procedure sorts records with distinct names by name returns the list of
  \<open>sort_byBucketName\<close>: the order in which \<open>sort.Sort\<close> moves equal names cannot show.
\<close>

lemma sort_byBucketName_only_one:
  assumes "distinct (map Name results)" and "set sorted_results = set results"
    and "length sorted_results = length results" and "sorted (map Name sorted_results)"
  shows "sorted_results = sort_byBucketName results"
proof -
  let ?s = "sort_byBucketName results"
  have ds: "distinct (map Name ?s)"
    using assms(1) by (simp add: sort_byBucketName_def distinct_map_sort_key)
  have inj: "inj_on Name (set results)"
    using assms(1) by (simp add: distinct_map)
  have "distinct results" using assms(1) by (simp add: distinct_map)
  then have "card (set sorted_results) = length sorted_results"
    using assms(2,3) by (simp add: distinct_card)
  then have "distinct sorted_results" by (simp add: card_distinct)
  then have dr: "distinct (map Name sorted_results)"
    using inj assms(2) by (simp add: distinct_map)
  have "set (map Name sorted_results) = set (map Name ?s)"
    using assms(2) by (simp add: sort_byBucketName_def)
  then have "map Name sorted_results = map Name ?s"
    using assms(4) dr ds sort_byBucketName_sorted sorted_distinct_set_unique by blast
  moreover have "inj_on Name (set sorted_results \<union> set ?s)"
    using inj assms(2) by (simp add: sort_byBucketName_def)
  ultimately show ?thesis by (rule map_inj_on)
qed

text \<open>
  C7: \<open>ListBuckets\<close> returns the bucket metadata sorted in ascending order of bucket
  name. Whatever the driver and the store are, a list it returns is sorted by name; and
  on a driver with a donut whose \<open>ListBuckets\<close> succeeds it does return a list, with one
  record for each bucket of the donut, holding its name and its creation time.
\<close>

theorem ListBuckets_sorted_by_name:
  "(\<forall>results. fst (ListBuckets drv w) = Inr results \<longrightarrow> sorted (map Name results)) \<and>
   (\<forall>d buckets. donut drv = Some d \<and> donut_ListBuckets d (store w) = Inr buckets \<longrightarrow>
      (\<exists>results. fst (ListBuckets drv w) = Inr results \<and> sorted (map Name results) \<and>
         length results = length buckets \<and>
         set results =
           (\<lambda>(name, metadata). \<lparr>Name = name, Created = donut_Created metadata, ACL = []\<rparr>)
             ` set buckets))"
proof (intro conjI allI impI)
  fix results
  assume "fst (ListBuckets drv w) = Inr results"
  then show "sorted (map Name results)"
    by (auto simp: ListBuckets_def sort_byBucketName_sorted split: option.splits sum.splits)
next
  fix d buckets
  assume "donut drv = Some d \<and> donut_ListBuckets d (store w) = Inr buckets"
  then have "fst (ListBuckets drv w) =
      Inr (sort_byBucketName
             (map (\<lambda>(name, metadata).
                     \<lparr>Name = name, Created = donut_Created metadata, ACL = []\<rparr>) buckets))"
    by (simp add: ListBuckets_def)
  then show "\<exists>results. fst (ListBuckets drv w) = Inr results \<and> sorted (map Name results) \<and>
         length results = length buckets \<and>
         set results =
           (\<lambda>(name, metadata). \<lparr>Name = name, Created = donut_Created metadata, ACL = []\<rparr>)
             ` set buckets"
    using sort_byBucketName_sorted sort_byBucketName_same_records by simp
qed

theorem ListBuckets_sorted_by_name_witness:
  "donut (photos_driver ([], [], False)) = Some (photos_donut ([], [], False)) \<and>
   fst (ListBuckets (photos_driver ([], [], False)) photos_world) =
     Inr [\<lparr>Name = ''backups'', Created = 1420000000, ACL = []\<rparr>,
          \<lparr>Name = ''photos'', Created = 1430000000, ACL = []\<rparr>] \<and>
   sorted [''backups'', ''photos'']"
proof -
  have r: "fst (ListBuckets (photos_driver ([], [], False)) photos_world) =
     Inr [\<lparr>Name = ''backups'', Created = 1420000000, ACL = []\<rparr>,
          \<lparr>Name = ''photos'', Created = 1430000000, ACL = []\<rparr>]"
    by (simp add: ListBuckets_def photos_driver_def photos_donut_def example_donut_def
        sort_byBucketName_def less_eq_char_def less_char_def)
  have "sorted (map Name [\<lparr>Name = ''backups'', Created = 1420000000, ACL = []\<rparr>,
          \<lparr>Name = ''photos'', Created = 1430000000, ACL = []\<rparr>])"
    using ListBuckets_sorted_by_name[of "photos_driver ([], [], False)" photos_world] r
    by blast
  then have "sorted [''backups'', ''photos'']" by simp
  then show ?thesis using r by (simp add: photos_driver_def)
qed

subsection \<open>Bucket names with a dot\<close>

text \<open>Without a donut every operation that takes a bucket name ends with \<open>InternalError\<close>.\<close>

lemma no_donut_InternalError:
  assumes "donut drv = None"
  shows "CreateBucket V drv bucketName acl w = (Some InternalError, w)"
    and "GetBucketMetadata V drv bucketName w = (Inl InternalError, w)"
    and "SetBucketMetadata V drv bucketName acl w = (Some InternalError, w)"
    and "GetObject V drv bucketName objectName w = ((0, Some InternalError), [], w)"
    and "GetPartialObject V drv bucketName objectName start len w = (Inl InternalError, [], w)"
    and "GetObjectMetadata V drv bucketName objectName w = (Inl InternalError, w)"
    and "ListObjects V drv bucketName resources w = (Inl InternalError, w)"
    and "CreateObject V drv bucketName objectName contentType expectedMD5Sum sz reader w
           = (Inl InternalError, w)"
  using assms
  by (simp_all add: CreateBucket_def GetBucketMetadata_def SetBucketMetadata_def GetObject_def
      GetPartialObject_def GetObjectMetadata_def ListObjects_def CreateObject_def)

text \<open>
  C6, as the code has it: on a driver that has a donut, every operation that takes a
  bucket name refuses a name containing \<open>.\<close> with \<open>BucketNameInvalid\<close> and makes no
  call to the donut layer (the world comes back as it was, with no new entry in its
  record of calls), but \<open>CreateBucket\<close> checks the ACL first: with an ACL that is not
  valid it ends with \<open>InvalidACL\<close>, also without a call to the donut layer.
\<close>

theorem dotted_bucket_name_refused:
  assumes "Contains_dot bucketName" and "donut drv = Some d"
  shows
   "(IsValidBucketACL V acl \<longrightarrow>
       CreateBucket V drv bucketName acl w = (Some (BucketNameInvalid bucketName), w)) \<and>
    (\<not> IsValidBucketACL V acl \<longrightarrow>
       CreateBucket V drv bucketName acl w = (Some (InvalidACL acl), w)) \<and>
    GetBucketMetadata V drv bucketName w = (Inl (BucketNameInvalid bucketName), w) \<and>
    SetBucketMetadata V drv bucketName acl w = (Some (BucketNameInvalid bucketName), w) \<and>
    GetObject V drv bucketName objectName w = ((0, Some (BucketNameInvalid bucketName)), [], w) \<and>
    GetPartialObject V drv bucketName objectName start len w
      = (Inl (BucketNameInvalid bucketName), [], w) \<and>
    GetObjectMetadata V drv bucketName objectName w = (Inl (BucketNameInvalid bucketName), w) \<and>
    ListObjects V drv bucketName resources w = (Inl (BucketNameInvalid bucketName), w) \<and>
    CreateObject V drv bucketName objectName contentType expectedMD5Sum sz reader w
      = (Inl (BucketNameInvalid bucketName), w)"
proof -
  have r: "bucket_refused V bucketName" using assms(1) by (simp add: bucket_refused_def)
  have "IsValidBucketACL V acl \<longrightarrow>
       CreateBucket V drv bucketName acl w = (Some (BucketNameInvalid bucketName), w)"
    using assms by (simp add: CreateBucket_def)
  moreover have "\<not> IsValidBucketACL V acl \<longrightarrow>
       CreateBucket V drv bucketName acl w = (Some (InvalidACL acl), w)"
    using assms by (simp add: CreateBucket_def)
  moreover have "GetBucketMetadata V drv bucketName w = (Inl (BucketNameInvalid bucketName), w)"
    using r assms(2) by (simp add: GetBucketMetadata_def)
  moreover have "SetBucketMetadata V drv bucketName acl w = (Some (BucketNameInvalid bucketName), w)"
    using r assms(2) by (simp add: SetBucketMetadata_def)
  moreover have "GetObject V drv bucketName objectName w
      = ((0, Some (BucketNameInvalid bucketName)), [], w)"
    using r assms(2) by (simp add: GetObject_def)
  moreover have "GetPartialObject V drv bucketName objectName start len w
      = (Inl (BucketNameInvalid bucketName), [], w)"
    using r assms(2) by (simp add: GetPartialObject_def)
  moreover have "GetObjectMetadata V drv bucketName objectName w
      = (Inl (BucketNameInvalid bucketName), w)"
    using r assms(2) by (simp add: GetObjectMetadata_def)
  moreover have "ListObjects V drv bucketName resources w = (Inl (BucketNameInvalid bucketName), w)"
    using r assms(2) by (simp add: ListObjects_def)
  moreover have "CreateObject V drv bucketName objectName contentType expectedMD5Sum sz reader w
      = (Inl (BucketNameInvalid bucketName), w)"
    using r assms(2) by (simp add: CreateObject_def)
  ultimately show ?thesis by blast
qed

theorem dotted_bucket_name_refused_witness:
  "Contains_dot ''my.bucket'' \<and>
   IsValidBucketACL spec_drivers ''private'' \<and>
   CreateBucket spec_drivers (photos_driver ([], [], False)) ''my.bucket'' ''private'' photos_world
     = (Some (BucketNameInvalid ''my.bucket''), photos_world) \<and>
   GetObject spec_drivers (photos_driver ([], [], False)) ''my.bucket'' ''cat.jpg'' photos_world
     = ((0, Some (BucketNameInvalid ''my.bucket'')), [], photos_world) \<and>
   ListObjects spec_drivers (photos_driver ([], [], False)) ''my.bucket''
       zero_BucketResourcesMetadata photos_world
     = (Inl (BucketNameInvalid ''my.bucket''), photos_world) \<and>
   \<not> IsValidBucketACL spec_drivers ''public'' \<and>
   CreateBucket spec_drivers (photos_driver ([], [], False)) ''my.bucket'' ''public'' photos_world
     = (Some (InvalidACL ''public''), photos_world)"
proof -
  have c: "Contains_dot ''my.bucket''" by (simp add: Contains_dot_def)
  have d: "donut (photos_driver ([], [], False)) = Some (photos_donut ([], [], False))"
    by (simp add: photos_driver_def)
  have a1: "IsValidBucketACL spec_drivers ''private''" by (simp add: spec_drivers_def)
  have a2: "\<not> IsValidBucketACL spec_drivers ''public''" by (simp add: spec_drivers_def)
  show ?thesis
    using c a1 a2
      dotted_bucket_name_refused[OF c d, of spec_drivers "''private''" photos_world "''cat.jpg''"
        0 0 zero_BucketResourcesMetadata "[]" "[]" 0 "[]"]
      dotted_bucket_name_refused[OF c d, of spec_drivers "''public''" photos_world "''cat.jpg''"
        0 0 zero_BucketResourcesMetadata "[]" "[]" 0 "[]"]
    by blast
qed

text \<open>
  C6 as stated fails for \<open>CreateBucket\<close>, which refuses the ACL before it looks at the
  name, and for a driver without a donut, where the name is not looked at.
\<close>

theorem dotted_bucket_name_counterexample:
  "Contains_dot ''my.bucket'' \<and>
   fst (CreateBucket spec_drivers (photos_driver ([], [], False)) ''my.bucket'' ''public''
          photos_world) = Some (InvalidACL ''public'') \<and>
   fst (GetObjectMetadata spec_drivers broken_driver ''my.bucket'' ''cat.jpg'' photos_world)
     = Inl InternalError"
  by (simp add: Contains_dot_def CreateBucket_def GetObjectMetadata_def photos_driver_def
      broken_driver_def spec_drivers_def)

subsection \<open>GetPartialObject\<close>

lemma store_touch [simp]: "store (touch a w) = store w"
  by (simp add: touch_def)

text \<open>\<open>io.CopyN\<close> of the whole reader, and of nothing.\<close>

lemma CopyN_all:
  "sint n = int (length src) \<Longrightarrow> fst (CopyN src n) = src \<and> fst (snd (CopyN src n)) = [] \<and>
     \<not> snd (snd (snd (CopyN src n)))"
  by (simp add: CopyN_def)

lemma CopyN_none: "CopyN src 0 = ([], src, 0, False)"
  by (simp add: CopyN_def)

lemma CopyN_past_end: "CopyN [] 1 = ([], [], 0, True)"
  by (simp add: CopyN_def)

text \<open>
  On an object the donut has, with names that pass the checks: the call ends with
  \<open>InvalidRange\<close> exactly when one of the three comparisons of the code holds, the
  sum being the wrapping sum of 64-bit integers. A call that gets past them ends with
  the count or with \<open>io.EOF\<close>.
\<close>

lemma GetPartialObject_InvalidRange_iff:
  assumes "donut drv = Some d" and "\<not> bucket_refused V bucketName"
    and "\<not> object_refused V objectName"
    and "donut_GetObject d bucketName objectName (store w) = Inr (reader, sz)"
  shows "fst (GetPartialObject V drv bucketName objectName start len w)
           = Inl (InvalidRange start len)
         \<longleftrightarrow> start <s 0 \<or> sz <s start \<or> sz <s start + len - 1"
  using assms
  by (auto simp: GetPartialObject_def Let_def split: prod.splits)

text \<open>
  Where \<open>start + length - 1\<close> stays within 64 bits the wrapping sum is the sum, and
  the three comparisons are those of the integers.
\<close>

lemma sint_start_len:
  fixes start len :: int64
  assumes "- (2 ^ 63) \<le> sint start + sint len - 1" and "sint start + sint len - 1 < 2 ^ 63"
  shows "sint (start + len - 1) = sint start + sint len - 1"
proof -
  have "sint (start + len - 1)
        = signed_take_bit 63 (signed_take_bit 63 (sint start + sint len) - signed_take_bit 63 1)"
    by (simp add: sint_word_diff sint_word_add)
  also have "\<dots> = signed_take_bit 63 (sint start + sint len - 1)"
    by (rule signed_take_bit_diff)
  finally show ?thesis using assms by (simp add: signed_take_bit_int_eq_self)
qed

lemma GetPartialObject_InvalidRange_without_overflow:
  assumes "donut drv = Some d" and "\<not> bucket_refused V bucketName"
    and "\<not> object_refused V objectName"
    and "donut_GetObject d bucketName objectName (store w) = Inr (reader, sz)"
    and "- (2 ^ 63) \<le> sint start + sint len - 1" and "sint start + sint len - 1 < 2 ^ 63"
  shows "fst (GetPartialObject V drv bucketName objectName start len w)
           = Inl (InvalidRange start len)
         \<longleftrightarrow> sint start < 0 \<or> sint start > sint sz \<or> sint start + sint len - 1 > sint sz"
  using GetPartialObject_InvalidRange_iff[OF assms(1-4)] sint_start_len[OF assms(5,6)]
  by (simp add: word_sless_alt)

text \<open>The names of the concrete inputs pass the checks.\<close>

lemma photos_names_accepted:
  "\<not> bucket_refused spec_drivers ''photos''" "\<not> object_refused spec_drivers ''cat.jpg''"
  by (code_simp+)

lemma photos_cat_jpg:
  "donut (photos_driver listing) = Some (photos_donut listing)"
  "donut_GetObject (photos_donut listing) ''photos'' ''cat.jpg'' (store photos_world)
     = Inr (abc, 3)"
  by (simp_all add: photos_driver_def photos_donut_def example_donut_def photos_world_def
      photos_store_def cat_jpg_def abc_def)

text \<open>
  C1 says that \<open>GetPartialObject\<close> on an existing object of size \<open>size\<close> fails with
  \<open>InvalidRange\<close> exactly when \<open>start < 0\<close>, \<open>start > size\<close> or
  \<open>start + length - 1 > size\<close>. The code computes \<open>start + length - 1\<close> in 64-bit
  integers, which wrap around. On the object \<open>photos/cat.jpg\<close> of 3 bytes, with
  \<open>start = 2\<close> and \<open>length = 9223372036854775807\<close>, the sum is greater than the size
  and the wrapped sum is negative: the range check passes, two bytes are discarded, the
  one byte left reaches the writer, and the call ends with \<open>io.EOF\<close>.
\<close>

theorem GetPartialObject_range_check_wraps:
  "sint (3 :: int64) < sint (2 :: int64) + sint (9223372036854775807 :: int64) - 1 \<and>
   (2 :: int64) + 9223372036854775807 - 1 = - 9223372036854775808 \<and>
   GetPartialObject spec_drivers (photos_driver ([], [], False)) ''photos'' ''cat.jpg''
       2 9223372036854775807 photos_world
     = (Inl EOF, [99], touch (GetObject_call ''photos'' ''cat.jpg'') photos_world)"
proof -
  have "CopyN abc 2 = ([97, 98], [99], 2, False)"
    by (simp add: CopyN_def abc_def)
  moreover have "CopyN [99] 9223372036854775807 = ([99], [], 1, True)"
    by (simp add: CopyN_def)
  moreover have "\<not> (3 :: int64) <s 2" "\<not> (2 :: int64) <s 0"
    "\<not> (3 :: int64) <s 2 + 9223372036854775807 - 1"
    by (simp_all add: word_sless_alt)
  ultimately show ?thesis
    using photos_names_accepted photos_cat_jpg[of "([], [], False)"]
    by (simp add: GetPartialObject_def)
qed

text \<open>
  At the end of an object whose reader yields as many bytes as its size says: a request
  for no bytes succeeds and writes nothing, and a request for one byte passes the
  range check, since \<open>start + 1 - 1\<close> is not greater than the size, and ends with
  \<open>io.EOF\<close>.
\<close>

lemma GetPartialObject_at_end:
  assumes "donut drv = Some d" and "\<not> bucket_refused V bucketName"
    and "\<not> object_refused V objectName"
    and "donut_GetObject d bucketName objectName (store w) = Inr (reader, sz)"
    and "sint sz = int (length reader)"
  shows "GetPartialObject V drv bucketName objectName sz 0 w
           = (Inr 0, [], touch (GetObject_call bucketName objectName) w)"
    and "GetPartialObject V drv bucketName objectName sz 1 w
           = (Inl EOF, [], touch (GetObject_call bucketName objectName) w)"
proof -
  have nn: "\<not> sz <s 0" using assms(5) by (simp add: word_sless_alt)
  have c: "CopyN reader sz = ([], reader, 0, False) \<and> reader = [] \<or>
           CopyN reader sz = (reader, [], sz, False)"
    using assms(5) by (auto simp: CopyN_def)
  have m: "\<not> sz <s sz - 1"
  proof (cases "sz = 0")
    case True
    then show ?thesis by (simp add: word_sless_alt)
  next
    case False
    then have "0 < sint sz" using assms(5) by (metis of_nat_0_le_iff order_le_less signed_eq_0_iff)
    then have "sint (sz - 1) = sint sz - 1"
      using sint_range_size[of sz]
      by (simp add: sint_word_diff signed_take_bit_int_eq_self word_size)
    then show ?thesis by (simp add: word_sless_alt)
  qed
  show "GetPartialObject V drv bucketName objectName sz 0 w
           = (Inr 0, [], touch (GetObject_call bucketName objectName) w)"
    using assms(1-4) nn c m by (auto simp: GetPartialObject_def CopyN_none)
  show "GetPartialObject V drv bucketName objectName sz 1 w
           = (Inl EOF, [], touch (GetObject_call bucketName objectName) w)"
    using assms(1-4) nn c by (auto simp: GetPartialObject_def CopyN_past_end)
qed

text \<open>
  C2 says that, on an object of size \<open>size\<close>, a request with \<open>start = size\<close> and
  \<open>length = 0\<close> succeeds with 0 bytes and one with \<open>start = size\<close> and \<open>length > 0\<close>
  fails with \<open>InvalidRange\<close>. On \<open>photos/cat.jpg\<close> of 3 bytes the request with
  \<open>start = 3\<close> and \<open>length = 0\<close> returns 0, and the request with \<open>start = 3\<close> and
  \<open>length = 1\<close> passes the range check, which compares \<open>start + length - 1 = 3\<close> with
  \<open>> size\<close>, and ends with \<open>io.EOF\<close>; from \<open>length = 2\<close> on it ends with
  \<open>InvalidRange\<close>.
\<close>

theorem GetPartialObject_one_byte_past_the_end:
  "fst (GetPartialObject spec_drivers (photos_driver ([], [], False)) ''photos'' ''cat.jpg''
          3 0 photos_world) = Inr 0 \<and>
   fst (GetPartialObject spec_drivers (photos_driver ([], [], False)) ''photos'' ''cat.jpg''
          3 1 photos_world) = Inl EOF \<and>
   fst (GetPartialObject spec_drivers (photos_driver ([], [], False)) ''photos'' ''cat.jpg''
          3 2 photos_world) = Inl (InvalidRange 3 2)"
proof -
  note d = photos_cat_jpg(1)[of "([], [], False)"]
  note g = photos_cat_jpg(2)[of "([], [], False)"]
  have s: "sint (3 :: int64) = int (length abc)" by (simp add: abc_def)
  have "(3 :: int64) <s 3 + 2 - 1" by (simp add: word_sless_alt)
  then have "fst (GetPartialObject spec_drivers (photos_driver ([], [], False)) ''photos''
      ''cat.jpg'' 3 2 photos_world) = Inl (InvalidRange 3 2)"
    using GetPartialObject_InvalidRange_iff[OF d photos_names_accepted g,
        where start = 3 and len = 2]
    by simp
  then show ?thesis
    using GetPartialObject_at_end[OF d photos_names_accepted g s]
    by simp
qed

subsection \<open>ListObjects\<close>

text \<open>The loop over the keys fails with an error of the donut layer or not at all.\<close>

lemma ListObjects_loop_error:
  "ListObjects_loop d bucketName names results w = (Inl e, w') \<Longrightarrow> \<exists>de. e = DonutError de"
proof (induction names arbitrary: results w)
  case Nil
  then show ?case by simp
next
  case (Cons objectName names)
  then show ?case
    by (auto simp: Let_def split: sum.splits)
qed

lemma ListObjects_loop_no_panic:
  "fst (ListObjects_loop d bucketName names results w) \<noteq> Inl (RuntimePanic p)"
proof
  assume a: "fst (ListObjects_loop d bucketName names results w) = Inl (RuntimePanic p)"
  obtain w' where "ListObjects_loop d bucketName names results w = (Inl (RuntimePanic p), w')"
    using a by (cases "ListObjects_loop d bucketName names results w") auto
  then show False using ListObjects_loop_error by fastforce
qed

lemma index_Nil: "index [] i = Inl IndexOutOfRange"
  by (simp add: index_def)

lemma index_last:
  "index xs (int (length xs) - 1) = (if xs = [] then Inl IndexOutOfRange else Inr (last xs))"
  by (cases xs rule: rev_cases) (auto simp: index_def nth_append)

text \<open>\<open>ListObjects\<close> from the point where the donut has returned its listing.\<close>

lemma ListObjects_after_listing:
  assumes "donut drv = Some d" and "\<not> bucket_refused V bucketName"
    and "IsValidObjectName V (Prefix resources)"
    and "donut_ListObjects d bucketName (Prefix resources) (Marker resources)
           (Delimiter resources) (Maxkeys resources) (store w)
         = Inr (actualObjects, commonPrefixes, isTruncated)"
  shows "ListObjects V drv bucketName resources w =
    (let w1 = touch (ListObjects_call bucketName) w;
         resources1 = resources\<lparr>CommonPrefixes := commonPrefixes, IsTruncated := isTruncated\<rparr>
     in if isTruncated \<and> Delimiter resources \<noteq> [] \<and> actualObjects = []
        then (Inl (RuntimePanic IndexOutOfRange), w1)
        else
          (case ListObjects_loop d bucketName actualObjects [] w1 of
             (Inl e, w2) \<Rightarrow> (Inl e, w2)
           | (Inr results, w2) \<Rightarrow>
               (Inr (sort_byObjectKey results,
                     resources1\<lparr>NextMarker :=
                       (if isTruncated \<and> Delimiter resources \<noteq> [] then last actualObjects
                        else NextMarker resources)\<rparr>),
                w2)))"
proof (cases "isTruncated \<and> Delimiter resources \<noteq> []")
  case True
  then show ?thesis
    using assms
    by (cases "actualObjects = []")
       (auto simp: ListObjects_def Let_def IsDelimiterSet_def index_last index_Nil
             simp del: ListObjects_loop.simps split: sum.splits prod.splits)
next
  case False
  then show ?thesis
    using assms
    by (auto simp: ListObjects_def Let_def IsDelimiterSet_def
             simp del: ListObjects_loop.simps split: sum.splits prod.splits)
qed

text \<open>
  C9: \<open>ListObjects\<close> is free of panics only if the donut never reports a truncated
  listing with no keys while a delimiter is set. The call panics (index out of range,
  at \<open>actualObjects[len(actualObjects)-1]\<close>) exactly when the driver has a donut, the
  bucket name and the prefix pass their checks, and the donut's \<open>ListObjects\<close> returns
  no keys with \<open>isTruncated\<close> true for resources whose delimiter is set.
\<close>

theorem ListObjects_panics_exactly_on_empty_truncated_listing:
  "(\<exists>p. fst (ListObjects V drv bucketName resources w) = Inl (RuntimePanic p)) \<longleftrightarrow>
   (\<exists>d commonPrefixes.
      donut drv = Some d \<and> IsValidBucket V bucketName \<and> \<not> Contains_dot bucketName \<and>
      IsValidObjectName V (Prefix resources) \<and>
      donut_ListObjects d bucketName (Prefix resources) (Marker resources)
        (Delimiter resources) (Maxkeys resources) (store w) = Inr ([], commonPrefixes, True) \<and>
      Delimiter resources \<noteq> [])"
proof (cases "donut drv")
  case None
  then show ?thesis by (simp add: ListObjects_def)
next
  case (Some d)
  show ?thesis
  proof (cases "bucket_refused V bucketName \<or> \<not> IsValidObjectName V (Prefix resources)")
    case True
    then show ?thesis using Some by (auto simp: ListObjects_def bucket_refused_def)
  next
    case False
    then have ok: "IsValidBucket V bucketName" "\<not> Contains_dot bucketName"
      "IsValidObjectName V (Prefix resources)" "\<not> bucket_refused V bucketName"
      by (auto simp: bucket_refused_def)
    show ?thesis
    proof (cases "donut_ListObjects d bucketName (Prefix resources) (Marker resources)
        (Delimiter resources) (Maxkeys resources) (store w)")
      case (Inl e)
      then show ?thesis using Some ok by (simp add: ListObjects_def Let_def)
    next
      case (Inr listing)
      obtain actualObjects commonPrefixes isTruncated
        where l: "listing = (actualObjects, commonPrefixes, isTruncated)"
        by (cases listing) auto
      have eq: "ListObjects V drv bucketName resources w =
        (let w1 = touch (ListObjects_call bucketName) w;
             resources1 = resources\<lparr>CommonPrefixes := commonPrefixes, IsTruncated := isTruncated\<rparr>
         in if isTruncated \<and> Delimiter resources \<noteq> [] \<and> actualObjects = []
            then (Inl (RuntimePanic IndexOutOfRange), w1)
            else
              (case ListObjects_loop d bucketName actualObjects [] w1 of
                 (Inl e, w2) \<Rightarrow> (Inl e, w2)
               | (Inr results, w2) \<Rightarrow>
                   (Inr (sort_byObjectKey results,
                         resources1\<lparr>NextMarker :=
                           (if isTruncated \<and> Delimiter resources \<noteq> [] then last actualObjects
                            else NextMarker resources)\<rparr>),
                    w2)))"
        using ListObjects_after_listing[OF Some ok(4) ok(3)] Inr l by simp
      show ?thesis
      proof (cases "isTruncated \<and> Delimiter resources \<noteq> [] \<and> actualObjects = []")
        case True
        then have "fst (ListObjects V drv bucketName resources w) = Inl (RuntimePanic IndexOutOfRange)"
          using eq by (simp add: Let_def)
        then show ?thesis using Some ok Inr l True by auto
      next
        case False
        obtain r w2 where lr:
          "ListObjects_loop d bucketName actualObjects [] (touch (ListObjects_call bucketName) w) = (r, w2)"
          by (cases "ListObjects_loop d bucketName actualObjects []
                       (touch (ListObjects_call bucketName) w)") auto
        have np: "r \<noteq> Inl (RuntimePanic p)" for p
          using ListObjects_loop_no_panic[of d bucketName actualObjects "[]"
              "touch (ListObjects_call bucketName) w" p] lr by simp
        have "fst (ListObjects V drv bucketName resources w) \<noteq> Inl (RuntimePanic p)" for p
          using eq False lr np[of p] by (cases r) (auto simp: Let_def)
        then show ?thesis using Some Inr l False by auto
      qed
    qed
  qed
qed

theorem ListObjects_panics_exactly_on_empty_truncated_listing_witness:
  "fst (ListObjects spec_drivers (photos_driver ([], [], True)) ''photos''
          (zero_BucketResourcesMetadata\<lparr>Delimiter := ''/''\<rparr>) photos_world)
     = Inl (RuntimePanic IndexOutOfRange) \<and>
   fst (ListObjects spec_drivers (photos_driver ([''cat.jpg''], [], True)) ''photos''
          (zero_BucketResourcesMetadata\<lparr>Delimiter := ''/''\<rparr>) photos_world)
     \<noteq> Inl (RuntimePanic IndexOutOfRange)"
proof -
  let ?r = "zero_BucketResourcesMetadata\<lparr>Delimiter := ''/''\<rparr>"
  have v: "IsValidBucket spec_drivers ''photos''" "\<not> Contains_dot ''photos''"
    "IsValidObjectName spec_drivers (Prefix ?r)" "Delimiter ?r \<noteq> []"
    by (simp_all add: spec_drivers_def bucket_char_def is_digit_def Contains_dot_def
        zero_BucketResourcesMetadata_def)
  have "donut (photos_driver ([], [], True)) = Some (photos_donut ([], [], True))"
    by (simp add: photos_driver_def)
  moreover have "donut_ListObjects (photos_donut ([], [], True)) ''photos'' (Prefix ?r) (Marker ?r)
      (Delimiter ?r) (Maxkeys ?r) (store photos_world) = Inr ([], [], True)"
    by (simp add: photos_donut_def example_donut_def)
  ultimately have "\<exists>p. fst (ListObjects spec_drivers (photos_driver ([], [], True)) ''photos''
      ?r photos_world) = Inl (RuntimePanic p)"
    using v ListObjects_panics_exactly_on_empty_truncated_listing
      [of spec_drivers "photos_driver ([], [], True)" "''photos''" ?r photos_world]
    by blast
  then have 1: "fst (ListObjects spec_drivers (photos_driver ([], [], True)) ''photos''
      ?r photos_world) = Inl (RuntimePanic IndexOutOfRange)"
    by (metis panic.exhaust)
  have "donut (photos_driver ([''cat.jpg''], [], True)) = Some (photos_donut ([''cat.jpg''], [], True))"
    by (simp add: photos_driver_def)
  moreover have "donut_ListObjects (photos_donut ([''cat.jpg''], [], True)) ''photos'' (Prefix ?r)
      (Marker ?r) (Delimiter ?r) (Maxkeys ?r) (store photos_world) = Inr ([''cat.jpg''], [], True)"
    by (simp add: photos_donut_def example_donut_def)
  ultimately have 2: "fst (ListObjects spec_drivers (photos_driver ([''cat.jpg''], [], True)) ''photos''
      ?r photos_world) \<noteq> Inl (RuntimePanic IndexOutOfRange)"
    using ListObjects_panics_exactly_on_empty_truncated_listing
      [of spec_drivers "photos_driver ([''cat.jpg''], [], True)" "''photos''" ?r photos_world]
    by auto
  show ?thesis using 1 2 by simp
qed

subsection \<open>The records ListObjects returns\<close>

lemma ListObjects_loop_records:
  "ListObjects_loop d bucketName names results w = (Inr rs, w') \<Longrightarrow>
     (\<forall>n \<in> set names. \<exists>md. donut_GetObjectMetadata d bucketName n (store w) = Inr md) \<and>
     rs = results @
          map (\<lambda>n. ListObjects_metadata n (projr (donut_GetObjectMetadata d bucketName n (store w))))
            names"
proof (induction names arbitrary: results w)
  case Nil
  then show ?case by simp
next
  case (Cons n names)
  from Cons.prems obtain md where
    md: "donut_GetObjectMetadata d bucketName n (store w) = Inr md"
    and rest: "ListObjects_loop d bucketName names (results @ [ListObjects_metadata n md])
                 (touch (GetObjectMetadata_call bucketName n) w) = (Inr rs, w')"
    by (auto simp: Let_def split: sum.splits)
  from Cons.IH[OF rest] md show ?case by simp
qed

text \<open>
  Every record \<open>ListObjects\<close> returns is that of a key the donut listed, with the size
  and the creation time of the donut's metadata for the key and with an empty \<open>Md5\<close>.
\<close>

lemma ListObjects_records:
  assumes "fst (ListObjects V drv bucketName resources w) = Inr (results, resources')"
    and "r \<in> set results"
  shows "\<exists>d md. donut drv = Some d \<and>
           donut_GetObjectMetadata d bucketName (Key r) (store w) = Inr md \<and>
           Size r = donut_Size md \<and> ObjCreated r = donut_ObjCreated md \<and> Md5 r = []"
proof (cases "donut drv")
  case None
  then show ?thesis using assms by (simp add: ListObjects_def)
next
  case (Some d)
  have ok: "\<not> bucket_refused V bucketName" "IsValidObjectName V (Prefix resources)"
    using assms(1) Some by (auto simp: ListObjects_def split: if_splits)
  obtain actualObjects commonPrefixes isTruncated where
    l: "donut_ListObjects d bucketName (Prefix resources) (Marker resources)
          (Delimiter resources) (Maxkeys resources) (store w)
        = Inr (actualObjects, commonPrefixes, isTruncated)"
    using assms(1) Some ok
    by (cases "donut_ListObjects d bucketName (Prefix resources) (Marker resources)
          (Delimiter resources) (Maxkeys resources) (store w)")
       (auto simp: ListObjects_def Let_def)
  obtain lr w2 where
    loop: "ListObjects_loop d bucketName actualObjects [] (touch (ListObjects_call bucketName) w)
           = (lr, w2)"
    by (cases "ListObjects_loop d bucketName actualObjects []
                 (touch (ListObjects_call bucketName) w)") auto
  from assms(1) ListObjects_after_listing[OF Some ok l] loop
  obtain rs where rs: "lr = Inr rs" "results = sort_byObjectKey rs"
    by (cases lr) (auto simp: Let_def split: if_splits)
  from ListObjects_loop_records[OF loop[unfolded rs(1)]]
  have all: "\<forall>n \<in> set actualObjects. \<exists>md. donut_GetObjectMetadata d bucketName n (store w) = Inr md"
    and eq: "rs = map (\<lambda>n. ListObjects_metadata n
                 (projr (donut_GetObjectMetadata d bucketName n (store w)))) actualObjects"
    by simp_all
  have "r \<in> set rs" using assms(2) rs(2) by (simp add: sort_byObjectKey_def)
  then obtain n where n: "n \<in> set actualObjects"
    "r = ListObjects_metadata n (projr (donut_GetObjectMetadata d bucketName n (store w)))"
    using eq by auto
  then obtain md where "donut_GetObjectMetadata d bucketName n (store w) = Inr md"
    using all by blast
  then show ?thesis using n Some by (simp add: ListObjects_metadata_def)
qed

text \<open>
  C4 says that the metadata record \<open>ListObjects\<close> returns for a key carries the
  object's size, creation time and MD5 digest as stored at write time. The record is
  made from the key, \<open>Created\<close> and \<open>Size\<close> only: for the bucket \<open>photos\<close> holding
  \<open>cat.jpg\<close>, whose stored digest is \<open>900150983cd24fb0d6963f7d28e17f72\<close>, the record
  listed has the size 3, the creation time and an empty \<open>Md5\<close>, while
  \<open>GetObjectMetadata\<close> returns the digest for the same object.
\<close>

theorem ListObjects_drops_Md5:
  "fst (ListObjects spec_drivers (photos_driver ([''cat.jpg''], [], False)) ''photos''
          zero_BucketResourcesMetadata photos_world)
     = Inr ([\<lparr>Bucket = [], Key = ''cat.jpg'', ContentType = [], ObjCreated = 1430000000,
               Md5 = [], Size = 3\<rparr>],
            zero_BucketResourcesMetadata) \<and>
   fst (GetObjectMetadata spec_drivers (photos_driver ([''cat.jpg''], [], False)) ''photos''
          ''cat.jpg'' photos_world)
     = Inr \<lparr>Bucket = ''photos'', Key = ''cat.jpg'', ContentType = ''image/jpeg'',
            ObjCreated = 1430000000, Md5 = ''900150983cd24fb0d6963f7d28e17f72'', Size = 3\<rparr>"
proof -
  let ?drv = "photos_driver ([''cat.jpg''], [], False)"
  have md: "donut_GetObjectMetadata (photos_donut ([''cat.jpg''], [], False)) ''photos'' ''cat.jpg''
       photos_store
     = Inr \<lparr>donut_ObjCreated = 1430000000, donut_MD5Sum = ''900150983cd24fb0d6963f7d28e17f72'',
            donut_Size = 3, donut_Metadata = [''contentType'' \<mapsto> ''image/jpeg'']\<rparr>"
    by (simp add: photos_donut_def example_donut_def photos_store_def cat_jpg_def abc_def)
  have l: "donut_ListObjects (photos_donut ([''cat.jpg''], [], False)) ''photos'' [] [] [] 0
       photos_store = Inr ([''cat.jpg''], [], False)"
    by (simp add: photos_donut_def example_donut_def)
  have v: "IsValidObjectName spec_drivers []" by (simp add: spec_drivers_def)
  have 1: "fst (ListObjects spec_drivers ?drv ''photos'' zero_BucketResourcesMetadata photos_world)
     = Inr ([\<lparr>Bucket = [], Key = ''cat.jpg'', ContentType = [], ObjCreated = 1430000000,
               Md5 = [], Size = 3\<rparr>],
            zero_BucketResourcesMetadata)"
    using photos_names_accepted(1) md l v
    by (simp add: ListObjects_def photos_driver_def zero_BucketResourcesMetadata_def
        photos_world_def Let_def IsDelimiterSet_def ListObjects_metadata_def
        sort_byObjectKey_def)
  have 2: "fst (GetObjectMetadata spec_drivers ?drv ''photos'' ''cat.jpg'' photos_world)
     = Inr \<lparr>Bucket = ''photos'', Key = ''cat.jpg'', ContentType = ''image/jpeg'',
            ObjCreated = 1430000000, Md5 = ''900150983cd24fb0d6963f7d28e17f72'', Size = 3\<rparr>"
    using photos_names_accepted md
    by (simp add: GetObjectMetadata_def photos_driver_def photos_world_def)
  show ?thesis using 1 2 by simp
qed

subsection \<open>CreateObject\<close>

lemma hextable_lowercase: "i < 16 \<Longrightarrow> hextable ! i \<in> set ''0123456789abcdef''"
  unfolding hextable_def by (rule nth_mem) simp

lemma lowercase_hex_EncodeToString: "lowercase_hex (EncodeToString bs)"
proof (induction bs)
  case Nil
  then show ?case by (simp add: lowercase_hex_def EncodeToString_def)
next
  case (Cons b bs)
  have "unat b < 256" using unsigned_less[of b, where 'a = nat] by simp
  then have "unat b div 16 < 16" "unat b mod 16 < 16" by simp_all
  then have "hextable ! (unat b div 16) \<in> set ''0123456789abcdef''"
    "hextable ! (unat b mod 16) \<in> set ''0123456789abcdef''"
    using hextable_lowercase by blast+
  then show ?case using Cons by (simp add: lowercase_hex_def EncodeToString_def)
qed

lemma TrimSpace_octet_stream: "TrimSpace ''application/octet-stream'' = ''application/octet-stream''"
  by code_simp

text \<open>\<open>CreateObject\<close> once the names have passed the checks.\<close>

lemma CreateObject_accepted:
  assumes "donut drv = Some d" and "\<not> bucket_refused V bucketName"
    and "\<not> object_refused V objectName"
  shows "CreateObject V drv bucketName objectName contentType expectedMD5Sum sz reader w =
    (case expectedMD5Sum_hex expectedMD5Sum of
       Inl e \<Rightarrow> (Inl e, w)
     | Inr expectedMD5Sum1 \<Rightarrow>
         CreateObject_put d bucketName objectName expectedMD5Sum1 reader
           [''contentType'' \<mapsto>
              (if TrimSpace contentType = [] then ''application/octet-stream''
               else TrimSpace contentType),
            ''contentLength'' \<mapsto> FormatInt sz] w)"
  using assms
  by (cases "expectedMD5Sum_hex expectedMD5Sum")
     (simp_all add: CreateObject_def Let_def TrimSpace_octet_stream)

text \<open>
  C5, as the code has it. For a call of \<open>CreateObject\<close> whose bucket and key pass the
  checks: a blank content type (empty or white space only) reaches \<open>PutObject\<close> as
  \<open>application/octet-stream\<close>, any other trimmed; an expected MD5 that is not blank is
  trimmed and decoded from base64, the call ending with the decoder's error and no call
  to the donut if that fails, and reaches \<open>PutObject\<close>, where the digests are compared,
  re-encoded in lowercase hexadecimal; a blank expected MD5, empty or white space only,
  reaches \<open>PutObject\<close> as it is; and with an empty one and the \<open>PutObject\<close> of the
  specification the call returns the calculated digest: no \<open>BadDigest\<close>.
\<close>

theorem CreateObject_content_type_and_MD5:
  fixes d :: "spec_store Donut"
  assumes "donut drv = Some d" and "\<not> bucket_refused V bucketName"
    and "\<not> object_refused V objectName"
  shows
   "(let metadata =
           [''contentType'' \<mapsto>
              (if TrimSpace contentType = [] then ''application/octet-stream''
               else TrimSpace contentType),
            ''contentLength'' \<mapsto> FormatInt sz]
     in (TrimSpace expectedMD5Sum \<noteq> [] \<and> DecodeString (TrimSpace expectedMD5Sum) = None \<longrightarrow>
           CreateObject V drv bucketName objectName contentType expectedMD5Sum sz reader w
             = (Inl CorruptInputError, w)) \<and>
        (\<forall>bytes. TrimSpace expectedMD5Sum \<noteq> [] \<and>
             DecodeString (TrimSpace expectedMD5Sum) = Some bytes \<longrightarrow>
           lowercase_hex (EncodeToString bytes) \<and>
           CreateObject V drv bucketName objectName contentType expectedMD5Sum sz reader w
             = CreateObject_put d bucketName objectName (EncodeToString bytes) reader
                 metadata w) \<and>
        (TrimSpace expectedMD5Sum = [] \<longrightarrow>
           CreateObject V drv bucketName objectName contentType expectedMD5Sum sz reader w
             = CreateObject_put d bucketName objectName expectedMD5Sum reader metadata w)) \<and>
    (expectedMD5Sum = [] \<and> donut_PutObject d = spec_PutObject md5hex \<longrightarrow>
       fst (CreateObject V drv bucketName objectName contentType expectedMD5Sum sz reader w)
         = Inr (md5hex reader))"
proof -
  note eq = CreateObject_accepted[OF assms, of contentType expectedMD5Sum sz reader w]
  have t: "TrimSpace [] = []" by code_simp
  have 1: "TrimSpace expectedMD5Sum \<noteq> [] \<and> DecodeString (TrimSpace expectedMD5Sum) = None \<longrightarrow>
           CreateObject V drv bucketName objectName contentType expectedMD5Sum sz reader w
             = (Inl CorruptInputError, w)"
    using eq by (simp add: expectedMD5Sum_hex_def)
  have 2: "\<forall>bytes. TrimSpace expectedMD5Sum \<noteq> [] \<and>
             DecodeString (TrimSpace expectedMD5Sum) = Some bytes \<longrightarrow>
           lowercase_hex (EncodeToString bytes) \<and>
           CreateObject V drv bucketName objectName contentType expectedMD5Sum sz reader w
             = CreateObject_put d bucketName objectName (EncodeToString bytes) reader
                 [''contentType'' \<mapsto>
                    (if TrimSpace contentType = [] then ''application/octet-stream''
                     else TrimSpace contentType),
                  ''contentLength'' \<mapsto> FormatInt sz] w"
    using eq lowercase_hex_EncodeToString by (simp add: expectedMD5Sum_hex_def)
  have 3: "TrimSpace expectedMD5Sum = [] \<longrightarrow>
           CreateObject V drv bucketName objectName contentType expectedMD5Sum sz reader w
             = CreateObject_put d bucketName objectName expectedMD5Sum reader
                 [''contentType'' \<mapsto>
                    (if TrimSpace contentType = [] then ''application/octet-stream''
                     else TrimSpace contentType),
                  ''contentLength'' \<mapsto> FormatInt sz] w"
    using eq by (simp add: expectedMD5Sum_hex_def)
  have 4: "expectedMD5Sum = [] \<and> donut_PutObject d = spec_PutObject md5hex \<longrightarrow>
       fst (CreateObject V drv bucketName objectName contentType expectedMD5Sum sz reader w)
         = Inr (md5hex reader)"
    using 3 t by (auto simp: CreateObject_put_def spec_PutObject_def Let_def)
  show ?thesis unfolding Let_def using 1 2 3 4 by blast
qed

lemma accesses_CreateObject_put:
  "accesses (snd (CreateObject_put d bucketName objectName e reader metadata w))
     = accesses w @ [PutObject_call bucketName objectName e]"
  by (auto simp: CreateObject_put_def touch_def Let_def split: prod.splits sum.splits)

lemma dog_jpg_accepted: "\<not> object_refused spec_drivers ''dog.jpg''"
  by code_simp

lemma photos_PutObject:
  "donut_PutObject (photos_donut listing) = spec_PutObject example_md5hex"
  by (simp add: photos_donut_def example_donut_def)

lemma example_md5hex_abc: "example_md5hex abc = ''900150983cd24fb0d6963f7d28e17f72''"
  by (simp add: example_md5hex_def abc_def)

theorem CreateObject_content_type_and_MD5_witness:
  "TrimSpace ''  '' = [] \<and>
   map_option EncodeToString (DecodeString (TrimSpace '' kAFQmDzST7DWlj99KOF/cg== ''))
     = Some ''900150983cd24fb0d6963f7d28e17f72'' \<and>
   CreateObject spec_drivers (photos_driver ([], [], False)) ''photos'' ''dog.jpg'' ''  ''
       '' kAFQmDzST7DWlj99KOF/cg== '' 3 abc photos_world
     = CreateObject_put (photos_donut ([], [], False)) ''photos'' ''dog.jpg''
         ''900150983cd24fb0d6963f7d28e17f72'' abc
         [''contentType'' \<mapsto> ''application/octet-stream'', ''contentLength'' \<mapsto> ''3'']
         photos_world \<and>
   accesses (snd (CreateObject spec_drivers (photos_driver ([], [], False)) ''photos'' ''dog.jpg''
                    ''  '' '' kAFQmDzST7DWlj99KOF/cg== '' 3 abc photos_world))
     = [PutObject_call ''photos'' ''dog.jpg'' ''900150983cd24fb0d6963f7d28e17f72''] \<and>
   CreateObject spec_drivers (photos_driver ([], [], False)) ''photos'' ''dog.jpg'' ''image/jpeg''
       ''not base64'' 3 abc photos_world
     = (Inl CorruptInputError, photos_world) \<and>
   accesses (snd (CreateObject spec_drivers (photos_driver ([], [], False)) ''photos'' ''dog.jpg''
                    ''image/jpeg'' ''  '' 3 abc photos_world))
     = [PutObject_call ''photos'' ''dog.jpg'' ''  ''] \<and>
   fst (CreateObject spec_drivers (photos_driver ([], [], False)) ''photos'' ''dog.jpg''
          ''image/jpeg'' [] 3 abc photos_world)
     = Inr ''900150983cd24fb0d6963f7d28e17f72''"
proof -
  let ?drv = "photos_driver ([], [], False)"
  let ?d = "photos_donut ([], [], False)"
  let ?m = "'' kAFQmDzST7DWlj99KOF/cg== ''"
  note d = photos_cat_jpg(1)[of "([], [], False)"]
  note main = CreateObject_content_type_and_MD5[OF d photos_names_accepted(1) dog_jpg_accepted,
      unfolded Let_def]
  have t1: "TrimSpace ''  '' = []" by code_simp
  have t2: "TrimSpace ?m = ''kAFQmDzST7DWlj99KOF/cg==''" by code_simp
  have t3: "TrimSpace ''not base64'' = ''not base64''" by code_simp
  have t4: "TrimSpace ''image/jpeg'' = ''image/jpeg''" by code_simp
  have f3: "FormatInt 3 = ''3''" by code_simp
  have dec: "DecodeString ''kAFQmDzST7DWlj99KOF/cg==''
      = Some [0x90, 0x01, 0x50, 0x98, 0x3c, 0xd2, 0x4f, 0xb0, 0xd6, 0x96, 0x3f, 0x7d, 0x28, 0xe1,
              0x7f, 0x72]"
    by code_simp
  have enc: "EncodeToString [0x90, 0x01, 0x50, 0x98, 0x3c, 0xd2, 0x4f, 0xb0, 0xd6, 0x96, 0x3f,
      0x7d, 0x28, 0xe1, 0x7f, 0x72] = ''900150983cd24fb0d6963f7d28e17f72''"
    by code_simp
  have dec3: "DecodeString ''not base64'' = None" by code_simp
  have 0: "map_option EncodeToString (DecodeString (TrimSpace ?m))
     = Some ''900150983cd24fb0d6963f7d28e17f72''"
    using t2 dec enc by simp
  have 1: "CreateObject spec_drivers ?drv ''photos'' ''dog.jpg'' ''  '' ?m 3 abc photos_world
     = CreateObject_put ?d ''photos'' ''dog.jpg'' ''900150983cd24fb0d6963f7d28e17f72'' abc
         [''contentType'' \<mapsto> ''application/octet-stream'', ''contentLength'' \<mapsto> ''3'']
         photos_world"
    using main[where contentType = "''  ''" and expectedMD5Sum = "?m" and sz = 3
        and reader = abc and w = photos_world and md5hex = example_md5hex] t1 t2 dec enc f3 by simp
  have 2: "accesses (snd (CreateObject spec_drivers ?drv ''photos'' ''dog.jpg'' ''  '' ?m 3 abc
      photos_world)) = [PutObject_call ''photos'' ''dog.jpg'' ''900150983cd24fb0d6963f7d28e17f72'']"
    unfolding 1 accesses_CreateObject_put by (simp add: photos_world_def)
  have 3: "CreateObject spec_drivers ?drv ''photos'' ''dog.jpg'' ''image/jpeg'' ''not base64'' 3 abc
      photos_world = (Inl CorruptInputError, photos_world)"
    using main[where contentType = "''image/jpeg''" and expectedMD5Sum = "''not base64''" and sz = 3
        and reader = abc and w = photos_world and md5hex = example_md5hex] t3 dec3
    by simp
  have e4: "CreateObject spec_drivers ?drv ''photos'' ''dog.jpg'' ''image/jpeg'' ''  '' 3 abc
      photos_world
     = CreateObject_put ?d ''photos'' ''dog.jpg'' ''  '' abc
         [''contentType'' \<mapsto> ''image/jpeg'', ''contentLength'' \<mapsto> ''3''] photos_world"
    using main[where contentType = "''image/jpeg''" and expectedMD5Sum = "''  ''" and sz = 3
        and reader = abc and w = photos_world and md5hex = example_md5hex] t1 t4 f3 by simp
  have 4: "accesses (snd (CreateObject spec_drivers ?drv ''photos'' ''dog.jpg'' ''image/jpeg''
      ''  '' 3 abc photos_world)) = [PutObject_call ''photos'' ''dog.jpg'' ''  '']"
    unfolding e4 accesses_CreateObject_put by (simp add: photos_world_def)
  have 5: "fst (CreateObject spec_drivers ?drv ''photos'' ''dog.jpg'' ''image/jpeg'' [] 3 abc
      photos_world) = Inr ''900150983cd24fb0d6963f7d28e17f72''"
    using main[where contentType = "''image/jpeg''" and expectedMD5Sum = "[]" and sz = 3
        and reader = abc and w = photos_world and md5hex = example_md5hex]
      photos_PutObject[of "([], [], False)"] example_md5hex_abc
    by simp
  show ?thesis using t1 0 1 2 3 4 5 by blast
qed

text \<open>
  C5 as stated fails for an expected MD5 that is not empty and is blank: a single
  space is not decoded and reaches \<open>PutObject\<close> as it is, where (with the \<open>PutObject\<close>
  of the specification) it matches no digest.
\<close>

theorem blank_expected_MD5_counterexample:
  "'' '' \<noteq> [] \<and> DecodeString '' '' = None \<and>
   accesses (snd (CreateObject spec_drivers (photos_driver ([], [], False)) ''photos'' ''dog.jpg''
                    ''image/jpeg'' '' '' 3 abc photos_world))
     = [PutObject_call ''photos'' ''dog.jpg'' '' ''] \<and>
   fst (CreateObject spec_drivers (photos_driver ([], [], False)) ''photos'' ''dog.jpg''
          ''image/jpeg'' '' '' 3 abc photos_world)
     = Inl (DonutError donut_BadDigest)"
proof -
  note d = photos_cat_jpg(1)[of "([], [], False)"]
  have t: "TrimSpace '' '' = []" by code_simp
  have dec: "DecodeString '' '' = None" by code_simp
  have h: "expectedMD5Sum_hex '' '' = Inr '' ''" using t by (simp add: expectedMD5Sum_hex_def)
  have eq: "CreateObject spec_drivers (photos_driver ([], [], False)) ''photos'' ''dog.jpg''
      ''image/jpeg'' '' '' 3 abc photos_world
    = CreateObject_put (photos_donut ([], [], False)) ''photos'' ''dog.jpg'' '' '' abc
        [''contentType'' \<mapsto>
           (if TrimSpace ''image/jpeg'' = [] then ''application/octet-stream''
            else TrimSpace ''image/jpeg''),
         ''contentLength'' \<mapsto> FormatInt 3] photos_world"
    using CreateObject_accepted[OF d photos_names_accepted(1) dog_jpg_accepted,
        of "''image/jpeg''" "'' ''" 3 abc photos_world] h
    by simp
  have a: "accesses (snd (CreateObject spec_drivers (photos_driver ([], [], False)) ''photos''
      ''dog.jpg'' ''image/jpeg'' '' '' 3 abc photos_world))
     = [PutObject_call ''photos'' ''dog.jpg'' '' '']"
    unfolding eq accesses_CreateObject_put by (simp add: photos_world_def)
  have b: "fst (CreateObject spec_drivers (photos_driver ([], [], False)) ''photos'' ''dog.jpg''
      ''image/jpeg'' '' '' 3 abc photos_world) = Inl (DonutError donut_BadDigest)"
    unfolding eq
    by (simp add: CreateObject_put_def photos_PutObject spec_PutObject_def example_md5hex_abc)
  show ?thesis using a b dec by simp
qed

section \<open>The disk layer: what the code does\<close>

text \<open>
  C8, as the code has it: opening a disk fails with \<open>InvalidArgument\<close> when the path
  is empty, with the not-a-directory error (\<open>ENOTDIR\<close>) when the path exists and is
  not a directory, whatever its file system, and with \<open>UnsupportedFilesystem\<close> when the
  path is an existing directory whose file system type \<open>getFSType\<close> does not know; it
  succeeds exactly when the path exists, is a directory and has a recognised file
  system type. The path exists when \<open>Statfs\<close> and \<open>Stat\<close> both succeed.
\<close>

theorem New_outcomes:
  "(diskPath = [] \<longrightarrow> New getFSType fs diskPath = Inl InvalidArgument) \<and>
   (diskPath \<noteq> [] \<and> Statfs fs diskPath = Inr s \<and> Stat fs diskPath = Inr st \<and> \<not> IsDir st \<longrightarrow>
      New getFSType fs diskPath = Inl ENOTDIR) \<and>
   (diskPath \<noteq> [] \<and> Statfs fs diskPath = Inr s \<and> Stat fs diskPath = Inr st \<and> IsDir st \<and>
    getFSType (Type s) = ''UNKNOWN'' \<longrightarrow>
      New getFSType fs diskPath = Inl (UnsupportedFilesystem (FormatInt (Type s)))) \<and>
   ((\<exists>disk. New getFSType fs diskPath = Inr disk) \<longleftrightarrow>
      diskPath \<noteq> [] \<and>
      (\<exists>s st. Statfs fs diskPath = Inr s \<and> Stat fs diskPath = Inr st \<and> IsDir st \<and>
         getFSType (Type s) \<noteq> ''UNKNOWN'')) \<and>
   (\<forall>disk. New getFSType fs diskPath = Inr disk \<longrightarrow>
      path disk = diskPath \<and> fsInfo disk ''MountPoint'' = Some diskPath \<and>
      (\<exists>s. Statfs fs diskPath = Inr s \<and> fsInfo disk ''FSType'' = Some (getFSType (Type s))))"
proof (intro conjI)
  show "diskPath = [] \<longrightarrow> New getFSType fs diskPath = Inl InvalidArgument"
    by (simp add: New_def)
  show "diskPath \<noteq> [] \<and> Statfs fs diskPath = Inr s \<and> Stat fs diskPath = Inr st \<and> \<not> IsDir st \<longrightarrow>
      New getFSType fs diskPath = Inl ENOTDIR"
    by (simp add: New_def)
  show "diskPath \<noteq> [] \<and> Statfs fs diskPath = Inr s \<and> Stat fs diskPath = Inr st \<and> IsDir st \<and>
    getFSType (Type s) = ''UNKNOWN'' \<longrightarrow>
      New getFSType fs diskPath = Inl (UnsupportedFilesystem (FormatInt (Type s)))"
    by (simp add: New_def)
  show "(\<exists>disk. New getFSType fs diskPath = Inr disk) \<longleftrightarrow>
      diskPath \<noteq> [] \<and>
      (\<exists>s st. Statfs fs diskPath = Inr s \<and> Stat fs diskPath = Inr st \<and> IsDir st \<and>
         getFSType (Type s) \<noteq> ''UNKNOWN'')"
    by (auto simp: New_def split: sum.splits if_splits)
  show "\<forall>disk. New getFSType fs diskPath = Inr disk \<longrightarrow>
      path disk = diskPath \<and> fsInfo disk ''MountPoint'' = Some diskPath \<and>
      (\<exists>s. Statfs fs diskPath = Inr s \<and> fsInfo disk ''FSType'' = Some (getFSType (Type s)))"
    by (auto simp: New_def split: sum.splits if_splits)
qed

theorem New_outcomes_witness:
  "New example_getFSType example_fs [] = Inl InvalidArgument \<and>
   New example_getFSType example_fs ''/mnt/notes.txt'' = Inl ENOTDIR \<and>
   New example_getFSType example_fs ''/mnt/floppy'' = Inl (UnsupportedFilesystem ''19780'') \<and>
   (\<exists>disk. New example_getFSType example_fs ''/mnt/disk1'' = Inr disk \<and>
      path disk = ''/mnt/disk1'' \<and> fsInfo disk ''FSType'' = Some ''EXT4'') \<and>
   (\<nexists>disk. New example_getFSType example_fs ''/mnt/none'' = Inr disk)"
proof -
  have f: "FormatInt 0x4d44 = ''19780''" by code_simp
  have 1: "New example_getFSType example_fs [] = Inl InvalidArgument"
    using New_outcomes[of "[]" example_getFSType example_fs] by simp
  have 2: "New example_getFSType example_fs ''/mnt/notes.txt'' = Inl ENOTDIR"
    using New_outcomes[of "''/mnt/notes.txt''" example_getFSType example_fs "\<lparr>Type = 0xEF53\<rparr>"
        "\<lparr>IsDir = False\<rparr>"]
    by (simp add: example_fs_def)
  have 3: "New example_getFSType example_fs ''/mnt/floppy'' = Inl (UnsupportedFilesystem ''19780'')"
    using New_outcomes[of "''/mnt/floppy''" example_getFSType example_fs "\<lparr>Type = 0x4d44\<rparr>"
        "\<lparr>IsDir = True\<rparr>"] f
    by (simp add: example_fs_def example_getFSType_def)
  have "\<exists>disk. New example_getFSType example_fs ''/mnt/disk1'' = Inr disk"
    using New_outcomes[of "''/mnt/disk1''" example_getFSType example_fs]
    by (simp add: example_fs_def example_getFSType_def)
  then obtain disk where d: "New example_getFSType example_fs ''/mnt/disk1'' = Inr disk" by blast
  then have "path disk = ''/mnt/disk1'' \<and> fsInfo disk ''FSType'' = Some ''EXT4''"
    using New_outcomes[of "''/mnt/disk1''" example_getFSType example_fs]
    by (auto simp: example_fs_def example_getFSType_def)
  then have 4: "\<exists>disk. New example_getFSType example_fs ''/mnt/disk1'' = Inr disk \<and>
      path disk = ''/mnt/disk1'' \<and> fsInfo disk ''FSType'' = Some ''EXT4''"
    using d by blast
  have 5: "\<nexists>disk. New example_getFSType example_fs ''/mnt/none'' = Inr disk"
    using New_outcomes[of "''/mnt/none''" example_getFSType example_fs]
    by (simp add: example_fs_def)
  show ?thesis using 1 2 3 4 5 by blast
qed

text \<open>
  C8 as stated fails for a regular file on a file system \<open>getFSType\<close> does not know:
  the type is outside the recognised set, and the error is \<open>ENOTDIR\<close>, since the
  directory check comes first.
\<close>

theorem regular_file_on_unknown_filesystem_counterexample:
  "Statfs example_fs ''/mnt/floppy/readme.txt'' = Inr \<lparr>Type = 0x4d44\<rparr> \<and>
   example_getFSType 0x4d44 = ''UNKNOWN'' \<and>
   New example_getFSType example_fs ''/mnt/floppy/readme.txt'' = Inl ENOTDIR \<and>
   New example_getFSType example_fs ''/mnt/floppy/readme.txt''
     \<noteq> Inl (UnsupportedFilesystem (FormatInt 0x4d44))"
  by (simp add: New_def example_fs_def example_getFSType_def ENOTDIR_def)

end
